theory Spec2Isabelle
  imports Main "HOL-Library.Sublist"
begin

text \<open>
  A model of the monitoring pipeline of the status monitor: the checker that probes one
  target over HTTP, the worker that runs it, the aggregator that keeps the state of
  every target and emits the transitions, the incident collector that records them in
  table \<open>incidents\<close>, and the scheduler that enqueues the jobs.  Every function is a
  function of its arguments and of what the network, the database, the clock and the Go
  runtime do, which are inputs.
\<close>

section \<open>Go values used by the monitor\<close>

text \<open>
  Go strings are byte sequences, as \<^typ>\<open>string\<close> is.  \<open>time.Time\<close> and
  \<open>time.Duration\<close> are counts of nanoseconds (\<^typ>\<open>int\<close>; a \<open>Duration\<close> is an
  \<open>int64\<close>).  Go's \<open>int\<close> and \<open>int64\<close> are modelled as \<^typ>\<open>int\<close> with the
  two's-complement wrap-around of 64 bits written out wherever the source computes.
\<close>

definition wrap64 :: "int \<Rightarrow> int" where
  "wrap64 x = (x + 2 ^ 63) mod 2 ^ 64 - 2 ^ 63"

definition Millisecond :: int where
  "Millisecond = 1000000"

subsection \<open>The functions of package strings, strconv and fmt that the code calls\<close>

text \<open>\<open>strings.Contains(s, substr)\<close>: \<open>substr\<close> occurs in \<open>s\<close> as a contiguous run.\<close>

definition strings_Contains :: "string \<Rightarrow> string \<Rightarrow> bool" where
  "strings_Contains s substr = sublist substr s"

text \<open>
  \<open>strings.TrimSpace\<close> removes leading and trailing white space as Unicode defines it.
  On the bytes of a string these are the UTF-8 encodings below (U+0009 to U+000D, U+0020,
  U+0085, U+00A0, U+1680, U+2000 to U+200A, U+2028, U+2029, U+202F, U+205F, U+3000).
\<close>

definition space_runes :: "string list" where
  "space_runes =
     [[CHR 0x09], [CHR 0x0A], [CHR 0x0B], [CHR 0x0C], [CHR 0x0D], [CHR 0x20],
      [CHR 0xC2, CHR 0x85], [CHR 0xC2, CHR 0xA0],
      [CHR 0xE1, CHR 0x9A, CHR 0x80],
      [CHR 0xE2, CHR 0x80, CHR 0x80], [CHR 0xE2, CHR 0x80, CHR 0x81],
      [CHR 0xE2, CHR 0x80, CHR 0x82], [CHR 0xE2, CHR 0x80, CHR 0x83],
      [CHR 0xE2, CHR 0x80, CHR 0x84], [CHR 0xE2, CHR 0x80, CHR 0x85],
      [CHR 0xE2, CHR 0x80, CHR 0x86], [CHR 0xE2, CHR 0x80, CHR 0x87],
      [CHR 0xE2, CHR 0x80, CHR 0x88], [CHR 0xE2, CHR 0x80, CHR 0x89],
      [CHR 0xE2, CHR 0x80, CHR 0x8A],
      [CHR 0xE2, CHR 0x80, CHR 0xA8], [CHR 0xE2, CHR 0x80, CHR 0xA9],
      [CHR 0xE2, CHR 0x80, CHR 0xAF], [CHR 0xE2, CHR 0x81, CHR 0x9F],
      [CHR 0xE3, CHR 0x80, CHR 0x80]]"

function strip_runes :: "string list \<Rightarrow> string \<Rightarrow> string" where
  "strip_runes rs s =
     (case find (\<lambda>r. r \<noteq> [] \<and> prefix r s) rs of
        None \<Rightarrow> s
      | Some r \<Rightarrow> strip_runes rs (drop (length r) s))"
  by pat_completeness auto
termination
  by (relation "measure (\<lambda>(rs, s). length s)") (auto simp: find_Some_iff prefix_def)

declare strip_runes.simps [simp del]

definition TrimSpace :: "string \<Rightarrow> string" where
  "TrimSpace s = rev (strip_runes (map rev space_runes) (rev (strip_runes space_runes s)))"

text \<open>
  \<open>strings.ToUpper\<close>, on the letters a to z.  The code only compares its result with
  \<open>"HEAD"\<close>, and no rune outside ASCII has H, E, A or D as its upper case, so keeping
  every other byte decides that comparison as Go does.
\<close>

definition upper_byte :: "char \<Rightarrow> char" where
  "upper_byte c =
     (case map_of (zip ''abcdefghijklmnopqrstuvwxyz'' ''ABCDEFGHIJKLMNOPQRSTUVWXYZ'') c of
        None \<Rightarrow> c
      | Some u \<Rightarrow> u)"

definition ToUpper :: "string \<Rightarrow> string" where
  "ToUpper s = map upper_byte s"

text \<open>The verb \<open>%d\<close> of \<open>fmt.Sprintf\<close>: an integer in decimal.\<close>

fun digits :: "nat \<Rightarrow> string" where
  "digits n =
     (if n < 10 then [''0123456789'' ! n]
      else digits (n div 10) @ [''0123456789'' ! (n mod 10)])"

declare digits.simps [simp del]

definition Itoa :: "int \<Rightarrow> string" where
  "Itoa i = (if i < 0 then CHR ''-'' # digits (nat (- i)) else digits (nat i))"

text \<open>
  The verb \<open>%q\<close> (\<open>strconv.Quote\<close>).  The string is read rune by rune with
  \<open>utf8.DecodeRuneInString\<close>: the rune at the head of the bytes and the number of bytes
  it takes; a byte sequence that is not the shortest UTF-8 encoding of a Unicode scalar
  value, or that is cut short, yields \<open>U+FFFD\<close> of width 1.
\<close>

definition RuneError :: int where
  "RuneError = 0xFFFD"

definition DecodeRuneInString :: "string \<Rightarrow> int \<times> nat" where
  "DecodeRuneInString s =
     (case s of
        [] \<Rightarrow> (RuneError, 0)
      | c # rest \<Rightarrow>
          (let s0 = (of_char c :: int)
           in if s0 < 0x80 then (s0, 1)
              else if s0 < 0xC2 \<or> 0xF4 < s0 then (RuneError, 1)
              else
                (let sz = (if s0 < 0xE0 then 2 else if s0 < 0xF0 then 3 else 4 :: nat);
                     lo = (if s0 = 0xE0 then 0xA0 else if s0 = 0xF0 then 0x90 else 0x80);
                     hi = (if s0 = 0xED then 0x9F else if s0 = 0xF4 then 0x8F else 0xBF)
                 in if length s < sz then (RuneError, 1)
                    else
                      (let s1 = (of_char (s ! 1) :: int)
                       in if s1 < lo \<or> hi < s1 then (RuneError, 1)
                          else if sz \<le> 2 then (s0 mod 32 * 64 + s1 mod 64, 2)
                          else
                            (let s2 = (of_char (s ! 2) :: int)
                             in if s2 < 0x80 \<or> 0xBF < s2 then (RuneError, 1)
                                else if sz \<le> 3 then
                                  (s0 mod 16 * 4096 + s1 mod 64 * 64 + s2 mod 64, 3)
                                else
                                  (let s3 = (of_char (s ! 3) :: int)
                                   in if s3 < 0x80 \<or> 0xBF < s3 then (RuneError, 1)
                                      else (s0 mod 8 * 262144 + s1 mod 64 * 4096
                                              + s2 mod 64 * 64 + s3 mod 64, 4)))))))"

text \<open>
  \<open>strconv.IsPrint\<close>: letters, marks, numbers, punctuation and symbols, and the ASCII
  space.  Up to \<open>U+00FF\<close> the function decides by comparison; beyond, it looks the rune
  up in tables generated from the Unicode data.  \<open>print_ranges\<close> holds the ranges of the
  runes from \<open>U+0100\<close> on in the general categories L, M, N, P and S of Unicode 15.0.0,
  the version of the Go releases 1.21 to 1.25 (the Dockerfile builds with Go 1.25).
\<close>

definition print_ranges :: "(int \<times> int) list" where
  "print_ranges =
     [(0x100, 0x377), (0x37A, 0x37F), (0x384, 0x38A), (0x38C, 0x38C), (0x38E, 0x3A1),
      (0x3A3, 0x52F), (0x531, 0x556), (0x559, 0x58A), (0x58D, 0x58F), (0x591, 0x5C7),
      (0x5D0, 0x5EA), (0x5EF, 0x5F4), (0x606, 0x61B), (0x61D, 0x6DC), (0x6DE, 0x70D),
      (0x710, 0x74A), (0x74D, 0x7B1), (0x7C0, 0x7FA), (0x7FD, 0x82D), (0x830, 0x83E),
      (0x840, 0x85B), (0x85E, 0x85E), (0x860, 0x86A), (0x870, 0x88E), (0x898, 0x8E1),
      (0x8E3, 0x983), (0x985, 0x98C), (0x98F, 0x990), (0x993, 0x9A8), (0x9AA, 0x9B0),
      (0x9B2, 0x9B2), (0x9B6, 0x9B9), (0x9BC, 0x9C4), (0x9C7, 0x9C8), (0x9CB, 0x9CE),
      (0x9D7, 0x9D7), (0x9DC, 0x9DD), (0x9DF, 0x9E3), (0x9E6, 0x9FE), (0xA01, 0xA03),
      (0xA05, 0xA0A), (0xA0F, 0xA10), (0xA13, 0xA28), (0xA2A, 0xA30), (0xA32, 0xA33),
      (0xA35, 0xA36), (0xA38, 0xA39), (0xA3C, 0xA3C), (0xA3E, 0xA42), (0xA47, 0xA48),
      (0xA4B, 0xA4D), (0xA51, 0xA51), (0xA59, 0xA5C), (0xA5E, 0xA5E), (0xA66, 0xA76),
      (0xA81, 0xA83), (0xA85, 0xA8D), (0xA8F, 0xA91), (0xA93, 0xAA8), (0xAAA, 0xAB0),
      (0xAB2, 0xAB3), (0xAB5, 0xAB9), (0xABC, 0xAC5), (0xAC7, 0xAC9), (0xACB, 0xACD),
      (0xAD0, 0xAD0), (0xAE0, 0xAE3), (0xAE6, 0xAF1), (0xAF9, 0xAFF), (0xB01, 0xB03),
      (0xB05, 0xB0C), (0xB0F, 0xB10), (0xB13, 0xB28), (0xB2A, 0xB30), (0xB32, 0xB33),
      (0xB35, 0xB39), (0xB3C, 0xB44), (0xB47, 0xB48), (0xB4B, 0xB4D), (0xB55, 0xB57),
      (0xB5C, 0xB5D), (0xB5F, 0xB63), (0xB66, 0xB77), (0xB82, 0xB83), (0xB85, 0xB8A),
      (0xB8E, 0xB90), (0xB92, 0xB95), (0xB99, 0xB9A), (0xB9C, 0xB9C), (0xB9E, 0xB9F),
      (0xBA3, 0xBA4), (0xBA8, 0xBAA), (0xBAE, 0xBB9), (0xBBE, 0xBC2), (0xBC6, 0xBC8),
      (0xBCA, 0xBCD), (0xBD0, 0xBD0), (0xBD7, 0xBD7), (0xBE6, 0xBFA), (0xC00, 0xC0C),
      (0xC0E, 0xC10), (0xC12, 0xC28), (0xC2A, 0xC39), (0xC3C, 0xC44), (0xC46, 0xC48),
      (0xC4A, 0xC4D), (0xC55, 0xC56), (0xC58, 0xC5A), (0xC5D, 0xC5D), (0xC60, 0xC63),
      (0xC66, 0xC6F), (0xC77, 0xC8C), (0xC8E, 0xC90), (0xC92, 0xCA8), (0xCAA, 0xCB3),
      (0xCB5, 0xCB9), (0xCBC, 0xCC4), (0xCC6, 0xCC8), (0xCCA, 0xCCD), (0xCD5, 0xCD6),
      (0xCDD, 0xCDE), (0xCE0, 0xCE3), (0xCE6, 0xCEF), (0xCF1, 0xCF3), (0xD00, 0xD0C),
      (0xD0E, 0xD10), (0xD12, 0xD44), (0xD46, 0xD48), (0xD4A, 0xD4F), (0xD54, 0xD63),
      (0xD66, 0xD7F), (0xD81, 0xD83), (0xD85, 0xD96), (0xD9A, 0xDB1), (0xDB3, 0xDBB),
      (0xDBD, 0xDBD), (0xDC0, 0xDC6), (0xDCA, 0xDCA), (0xDCF, 0xDD4), (0xDD6, 0xDD6),
      (0xDD8, 0xDDF), (0xDE6, 0xDEF), (0xDF2, 0xDF4), (0xE01, 0xE3A), (0xE3F, 0xE5B),
      (0xE81, 0xE82), (0xE84, 0xE84), (0xE86, 0xE8A), (0xE8C, 0xEA3), (0xEA5, 0xEA5),
      (0xEA7, 0xEBD), (0xEC0, 0xEC4), (0xEC6, 0xEC6), (0xEC8, 0xECE), (0xED0, 0xED9),
      (0xEDC, 0xEDF), (0xF00, 0xF47), (0xF49, 0xF6C), (0xF71, 0xF97), (0xF99, 0xFBC),
      (0xFBE, 0xFCC), (0xFCE, 0xFDA), (0x1000, 0x10C5), (0x10C7, 0x10C7), (0x10CD, 0x10CD),
      (0x10D0, 0x1248), (0x124A, 0x124D), (0x1250, 0x1256), (0x1258, 0x1258), (0x125A, 0x125D),
      (0x1260, 0x1288), (0x128A, 0x128D), (0x1290, 0x12B0), (0x12B2, 0x12B5), (0x12B8, 0x12BE),
      (0x12C0, 0x12C0), (0x12C2, 0x12C5), (0x12C8, 0x12D6), (0x12D8, 0x1310), (0x1312, 0x1315),
      (0x1318, 0x135A), (0x135D, 0x137C), (0x1380, 0x1399), (0x13A0, 0x13F5), (0x13F8, 0x13FD),
      (0x1400, 0x167F), (0x1681, 0x169C), (0x16A0, 0x16F8), (0x1700, 0x1715), (0x171F, 0x1736),
      (0x1740, 0x1753), (0x1760, 0x176C), (0x176E, 0x1770), (0x1772, 0x1773), (0x1780, 0x17DD),
      (0x17E0, 0x17E9), (0x17F0, 0x17F9), (0x1800, 0x180D), (0x180F, 0x1819), (0x1820, 0x1878),
      (0x1880, 0x18AA), (0x18B0, 0x18F5), (0x1900, 0x191E), (0x1920, 0x192B), (0x1930, 0x193B),
      (0x1940, 0x1940), (0x1944, 0x196D), (0x1970, 0x1974), (0x1980, 0x19AB), (0x19B0, 0x19C9),
      (0x19D0, 0x19DA), (0x19DE, 0x1A1B), (0x1A1E, 0x1A5E), (0x1A60, 0x1A7C), (0x1A7F, 0x1A89),
      (0x1A90, 0x1A99), (0x1AA0, 0x1AAD), (0x1AB0, 0x1ACE), (0x1B00, 0x1B4C), (0x1B50, 0x1B7E),
      (0x1B80, 0x1BF3), (0x1BFC, 0x1C37), (0x1C3B, 0x1C49), (0x1C4D, 0x1C88), (0x1C90, 0x1CBA),
      (0x1CBD, 0x1CC7), (0x1CD0, 0x1CFA), (0x1D00, 0x1F15), (0x1F18, 0x1F1D), (0x1F20, 0x1F45),
      (0x1F48, 0x1F4D), (0x1F50, 0x1F57), (0x1F59, 0x1F59), (0x1F5B, 0x1F5B), (0x1F5D, 0x1F5D),
      (0x1F5F, 0x1F7D), (0x1F80, 0x1FB4), (0x1FB6, 0x1FC4), (0x1FC6, 0x1FD3), (0x1FD6, 0x1FDB),
      (0x1FDD, 0x1FEF), (0x1FF2, 0x1FF4), (0x1FF6, 0x1FFE), (0x2010, 0x2027), (0x2030, 0x205E),
      (0x2070, 0x2071), (0x2074, 0x208E), (0x2090, 0x209C), (0x20A0, 0x20C0), (0x20D0, 0x20F0),
      (0x2100, 0x218B), (0x2190, 0x2426), (0x2440, 0x244A), (0x2460, 0x2B73), (0x2B76, 0x2B95),
      (0x2B97, 0x2CF3), (0x2CF9, 0x2D25), (0x2D27, 0x2D27), (0x2D2D, 0x2D2D), (0x2D30, 0x2D67),
      (0x2D6F, 0x2D70), (0x2D7F, 0x2D96), (0x2DA0, 0x2DA6), (0x2DA8, 0x2DAE), (0x2DB0, 0x2DB6),
      (0x2DB8, 0x2DBE), (0x2DC0, 0x2DC6), (0x2DC8, 0x2DCE), (0x2DD0, 0x2DD6), (0x2DD8, 0x2DDE),
      (0x2DE0, 0x2E5D), (0x2E80, 0x2E99), (0x2E9B, 0x2EF3), (0x2F00, 0x2FD5), (0x2FF0, 0x2FFB),
      (0x3001, 0x303F), (0x3041, 0x3096), (0x3099, 0x30FF), (0x3105, 0x312F), (0x3131, 0x318E),
      (0x3190, 0x31E3), (0x31F0, 0x321E), (0x3220, 0xA48C), (0xA490, 0xA4C6), (0xA4D0, 0xA62B),
      (0xA640, 0xA6F7), (0xA700, 0xA7CA), (0xA7D0, 0xA7D1), (0xA7D3, 0xA7D3), (0xA7D5, 0xA7D9),
      (0xA7F2, 0xA82C), (0xA830, 0xA839), (0xA840, 0xA877), (0xA880, 0xA8C5), (0xA8CE, 0xA8D9),
      (0xA8E0, 0xA953), (0xA95F, 0xA97C), (0xA980, 0xA9CD), (0xA9CF, 0xA9D9), (0xA9DE, 0xA9FE),
      (0xAA00, 0xAA36), (0xAA40, 0xAA4D), (0xAA50, 0xAA59), (0xAA5C, 0xAAC2), (0xAADB, 0xAAF6),
      (0xAB01, 0xAB06), (0xAB09, 0xAB0E), (0xAB11, 0xAB16), (0xAB20, 0xAB26), (0xAB28, 0xAB2E),
      (0xAB30, 0xAB6B), (0xAB70, 0xABED), (0xABF0, 0xABF9), (0xAC00, 0xD7A3), (0xD7B0, 0xD7C6),
      (0xD7CB, 0xD7FB), (0xF900, 0xFA6D), (0xFA70, 0xFAD9), (0xFB00, 0xFB06), (0xFB13, 0xFB17),
      (0xFB1D, 0xFB36), (0xFB38, 0xFB3C), (0xFB3E, 0xFB3E), (0xFB40, 0xFB41), (0xFB43, 0xFB44),
      (0xFB46, 0xFBC2), (0xFBD3, 0xFD8F), (0xFD92, 0xFDC7), (0xFDCF, 0xFDCF), (0xFDF0, 0xFE19),
      (0xFE20, 0xFE52), (0xFE54, 0xFE66), (0xFE68, 0xFE6B), (0xFE70, 0xFE74), (0xFE76, 0xFEFC),
      (0xFF01, 0xFFBE), (0xFFC2, 0xFFC7), (0xFFCA, 0xFFCF), (0xFFD2, 0xFFD7), (0xFFDA, 0xFFDC),
      (0xFFE0, 0xFFE6), (0xFFE8, 0xFFEE), (0xFFFC, 0xFFFD), (0x10000, 0x1000B),
      (0x1000D, 0x10026), (0x10028, 0x1003A), (0x1003C, 0x1003D), (0x1003F, 0x1004D),
      (0x10050, 0x1005D), (0x10080, 0x100FA), (0x10100, 0x10102), (0x10107, 0x10133),
      (0x10137, 0x1018E), (0x10190, 0x1019C), (0x101A0, 0x101A0), (0x101D0, 0x101FD),
      (0x10280, 0x1029C), (0x102A0, 0x102D0), (0x102E0, 0x102FB), (0x10300, 0x10323),
      (0x1032D, 0x1034A), (0x10350, 0x1037A), (0x10380, 0x1039D), (0x1039F, 0x103C3),
      (0x103C8, 0x103D5), (0x10400, 0x1049D), (0x104A0, 0x104A9), (0x104B0, 0x104D3),
      (0x104D8, 0x104FB), (0x10500, 0x10527), (0x10530, 0x10563), (0x1056F, 0x1057A),
      (0x1057C, 0x1058A), (0x1058C, 0x10592), (0x10594, 0x10595), (0x10597, 0x105A1),
      (0x105A3, 0x105B1), (0x105B3, 0x105B9), (0x105BB, 0x105BC), (0x10600, 0x10736),
      (0x10740, 0x10755), (0x10760, 0x10767), (0x10780, 0x10785), (0x10787, 0x107B0),
      (0x107B2, 0x107BA), (0x10800, 0x10805), (0x10808, 0x10808), (0x1080A, 0x10835),
      (0x10837, 0x10838), (0x1083C, 0x1083C), (0x1083F, 0x10855), (0x10857, 0x1089E),
      (0x108A7, 0x108AF), (0x108E0, 0x108F2), (0x108F4, 0x108F5), (0x108FB, 0x1091B),
      (0x1091F, 0x10939), (0x1093F, 0x1093F), (0x10980, 0x109B7), (0x109BC, 0x109CF),
      (0x109D2, 0x10A03), (0x10A05, 0x10A06), (0x10A0C, 0x10A13), (0x10A15, 0x10A17),
      (0x10A19, 0x10A35), (0x10A38, 0x10A3A), (0x10A3F, 0x10A48), (0x10A50, 0x10A58),
      (0x10A60, 0x10A9F), (0x10AC0, 0x10AE6), (0x10AEB, 0x10AF6), (0x10B00, 0x10B35),
      (0x10B39, 0x10B55), (0x10B58, 0x10B72), (0x10B78, 0x10B91), (0x10B99, 0x10B9C),
      (0x10BA9, 0x10BAF), (0x10C00, 0x10C48), (0x10C80, 0x10CB2), (0x10CC0, 0x10CF2),
      (0x10CFA, 0x10D27), (0x10D30, 0x10D39), (0x10E60, 0x10E7E), (0x10E80, 0x10EA9),
      (0x10EAB, 0x10EAD), (0x10EB0, 0x10EB1), (0x10EFD, 0x10F27), (0x10F30, 0x10F59),
      (0x10F70, 0x10F89), (0x10FB0, 0x10FCB), (0x10FE0, 0x10FF6), (0x11000, 0x1104D),
      (0x11052, 0x11075), (0x1107F, 0x110BC), (0x110BE, 0x110C2), (0x110D0, 0x110E8),
      (0x110F0, 0x110F9), (0x11100, 0x11134), (0x11136, 0x11147), (0x11150, 0x11176),
      (0x11180, 0x111DF), (0x111E1, 0x111F4), (0x11200, 0x11211), (0x11213, 0x11241),
      (0x11280, 0x11286), (0x11288, 0x11288), (0x1128A, 0x1128D), (0x1128F, 0x1129D),
      (0x1129F, 0x112A9), (0x112B0, 0x112EA), (0x112F0, 0x112F9), (0x11300, 0x11303),
      (0x11305, 0x1130C), (0x1130F, 0x11310), (0x11313, 0x11328), (0x1132A, 0x11330),
      (0x11332, 0x11333), (0x11335, 0x11339), (0x1133B, 0x11344), (0x11347, 0x11348),
      (0x1134B, 0x1134D), (0x11350, 0x11350), (0x11357, 0x11357), (0x1135D, 0x11363),
      (0x11366, 0x1136C), (0x11370, 0x11374), (0x11400, 0x1145B), (0x1145D, 0x11461),
      (0x11480, 0x114C7), (0x114D0, 0x114D9), (0x11580, 0x115B5), (0x115B8, 0x115DD),
      (0x11600, 0x11644), (0x11650, 0x11659), (0x11660, 0x1166C), (0x11680, 0x116B9),
      (0x116C0, 0x116C9), (0x11700, 0x1171A), (0x1171D, 0x1172B), (0x11730, 0x11746),
      (0x11800, 0x1183B), (0x118A0, 0x118F2), (0x118FF, 0x11906), (0x11909, 0x11909),
      (0x1190C, 0x11913), (0x11915, 0x11916), (0x11918, 0x11935), (0x11937, 0x11938),
      (0x1193B, 0x11946), (0x11950, 0x11959), (0x119A0, 0x119A7), (0x119AA, 0x119D7),
      (0x119DA, 0x119E4), (0x11A00, 0x11A47), (0x11A50, 0x11AA2), (0x11AB0, 0x11AF8),
      (0x11B00, 0x11B09), (0x11C00, 0x11C08), (0x11C0A, 0x11C36), (0x11C38, 0x11C45),
      (0x11C50, 0x11C6C), (0x11C70, 0x11C8F), (0x11C92, 0x11CA7), (0x11CA9, 0x11CB6),
      (0x11D00, 0x11D06), (0x11D08, 0x11D09), (0x11D0B, 0x11D36), (0x11D3A, 0x11D3A),
      (0x11D3C, 0x11D3D), (0x11D3F, 0x11D47), (0x11D50, 0x11D59), (0x11D60, 0x11D65),
      (0x11D67, 0x11D68), (0x11D6A, 0x11D8E), (0x11D90, 0x11D91), (0x11D93, 0x11D98),
      (0x11DA0, 0x11DA9), (0x11EE0, 0x11EF8), (0x11F00, 0x11F10), (0x11F12, 0x11F3A),
      (0x11F3E, 0x11F59), (0x11FB0, 0x11FB0), (0x11FC0, 0x11FF1), (0x11FFF, 0x12399),
      (0x12400, 0x1246E), (0x12470, 0x12474), (0x12480, 0x12543), (0x12F90, 0x12FF2),
      (0x13000, 0x1342F), (0x13440, 0x13455), (0x14400, 0x14646), (0x16800, 0x16A38),
      (0x16A40, 0x16A5E), (0x16A60, 0x16A69), (0x16A6E, 0x16ABE), (0x16AC0, 0x16AC9),
      (0x16AD0, 0x16AED), (0x16AF0, 0x16AF5), (0x16B00, 0x16B45), (0x16B50, 0x16B59),
      (0x16B5B, 0x16B61), (0x16B63, 0x16B77), (0x16B7D, 0x16B8F), (0x16E40, 0x16E9A),
      (0x16F00, 0x16F4A), (0x16F4F, 0x16F87), (0x16F8F, 0x16F9F), (0x16FE0, 0x16FE4),
      (0x16FF0, 0x16FF1), (0x17000, 0x187F7), (0x18800, 0x18CD5), (0x18D00, 0x18D08),
      (0x1AFF0, 0x1AFF3), (0x1AFF5, 0x1AFFB), (0x1AFFD, 0x1AFFE), (0x1B000, 0x1B122),
      (0x1B132, 0x1B132), (0x1B150, 0x1B152), (0x1B155, 0x1B155), (0x1B164, 0x1B167),
      (0x1B170, 0x1B2FB), (0x1BC00, 0x1BC6A), (0x1BC70, 0x1BC7C), (0x1BC80, 0x1BC88),
      (0x1BC90, 0x1BC99), (0x1BC9C, 0x1BC9F), (0x1CF00, 0x1CF2D), (0x1CF30, 0x1CF46),
      (0x1CF50, 0x1CFC3), (0x1D000, 0x1D0F5), (0x1D100, 0x1D126), (0x1D129, 0x1D172),
      (0x1D17B, 0x1D1EA), (0x1D200, 0x1D245), (0x1D2C0, 0x1D2D3), (0x1D2E0, 0x1D2F3),
      (0x1D300, 0x1D356), (0x1D360, 0x1D378), (0x1D400, 0x1D454), (0x1D456, 0x1D49C),
      (0x1D49E, 0x1D49F), (0x1D4A2, 0x1D4A2), (0x1D4A5, 0x1D4A6), (0x1D4A9, 0x1D4AC),
      (0x1D4AE, 0x1D4B9), (0x1D4BB, 0x1D4BB), (0x1D4BD, 0x1D4C3), (0x1D4C5, 0x1D505),
      (0x1D507, 0x1D50A), (0x1D50D, 0x1D514), (0x1D516, 0x1D51C), (0x1D51E, 0x1D539),
      (0x1D53B, 0x1D53E), (0x1D540, 0x1D544), (0x1D546, 0x1D546), (0x1D54A, 0x1D550),
      (0x1D552, 0x1D6A5), (0x1D6A8, 0x1D7CB), (0x1D7CE, 0x1DA8B), (0x1DA9B, 0x1DA9F),
      (0x1DAA1, 0x1DAAF), (0x1DF00, 0x1DF1E), (0x1DF25, 0x1DF2A), (0x1E000, 0x1E006),
      (0x1E008, 0x1E018), (0x1E01B, 0x1E021), (0x1E023, 0x1E024), (0x1E026, 0x1E02A),
      (0x1E030, 0x1E06D), (0x1E08F, 0x1E08F), (0x1E100, 0x1E12C), (0x1E130, 0x1E13D),
      (0x1E140, 0x1E149), (0x1E14E, 0x1E14F), (0x1E290, 0x1E2AE), (0x1E2C0, 0x1E2F9),
      (0x1E2FF, 0x1E2FF), (0x1E4D0, 0x1E4F9), (0x1E7E0, 0x1E7E6), (0x1E7E8, 0x1E7EB),
      (0x1E7ED, 0x1E7EE), (0x1E7F0, 0x1E7FE), (0x1E800, 0x1E8C4), (0x1E8C7, 0x1E8D6),
      (0x1E900, 0x1E94B), (0x1E950, 0x1E959), (0x1E95E, 0x1E95F), (0x1EC71, 0x1ECB4),
      (0x1ED01, 0x1ED3D), (0x1EE00, 0x1EE03), (0x1EE05, 0x1EE1F), (0x1EE21, 0x1EE22),
      (0x1EE24, 0x1EE24), (0x1EE27, 0x1EE27), (0x1EE29, 0x1EE32), (0x1EE34, 0x1EE37),
      (0x1EE39, 0x1EE39), (0x1EE3B, 0x1EE3B), (0x1EE42, 0x1EE42), (0x1EE47, 0x1EE47),
      (0x1EE49, 0x1EE49), (0x1EE4B, 0x1EE4B), (0x1EE4D, 0x1EE4F), (0x1EE51, 0x1EE52),
      (0x1EE54, 0x1EE54), (0x1EE57, 0x1EE57), (0x1EE59, 0x1EE59), (0x1EE5B, 0x1EE5B),
      (0x1EE5D, 0x1EE5D), (0x1EE5F, 0x1EE5F), (0x1EE61, 0x1EE62), (0x1EE64, 0x1EE64),
      (0x1EE67, 0x1EE6A), (0x1EE6C, 0x1EE72), (0x1EE74, 0x1EE77), (0x1EE79, 0x1EE7C),
      (0x1EE7E, 0x1EE7E), (0x1EE80, 0x1EE89), (0x1EE8B, 0x1EE9B), (0x1EEA1, 0x1EEA3),
      (0x1EEA5, 0x1EEA9), (0x1EEAB, 0x1EEBB), (0x1EEF0, 0x1EEF1), (0x1F000, 0x1F02B),
      (0x1F030, 0x1F093), (0x1F0A0, 0x1F0AE), (0x1F0B1, 0x1F0BF), (0x1F0C1, 0x1F0CF),
      (0x1F0D1, 0x1F0F5), (0x1F100, 0x1F1AD), (0x1F1E6, 0x1F202), (0x1F210, 0x1F23B),
      (0x1F240, 0x1F248), (0x1F250, 0x1F251), (0x1F260, 0x1F265), (0x1F300, 0x1F6D7),
      (0x1F6DC, 0x1F6EC), (0x1F6F0, 0x1F6FC), (0x1F700, 0x1F776), (0x1F77B, 0x1F7D9),
      (0x1F7E0, 0x1F7EB), (0x1F7F0, 0x1F7F0), (0x1F800, 0x1F80B), (0x1F810, 0x1F847),
      (0x1F850, 0x1F859), (0x1F860, 0x1F887), (0x1F890, 0x1F8AD), (0x1F8B0, 0x1F8B1),
      (0x1F900, 0x1FA53), (0x1FA60, 0x1FA6D), (0x1FA70, 0x1FA7C), (0x1FA80, 0x1FA88),
      (0x1FA90, 0x1FABD), (0x1FABF, 0x1FAC5), (0x1FACE, 0x1FADB), (0x1FAE0, 0x1FAE8),
      (0x1FAF0, 0x1FAF8), (0x1FB00, 0x1FB92), (0x1FB94, 0x1FBCA), (0x1FBF0, 0x1FBF9),
      (0x20000, 0x2A6DF), (0x2A700, 0x2B739), (0x2B740, 0x2B81D), (0x2B820, 0x2CEA1),
      (0x2CEB0, 0x2EBE0), (0x2F800, 0x2FA1D), (0x30000, 0x3134A), (0x31350, 0x323AF),
      (0xE0100, 0xE01EF)]"

definition IsPrint :: "int \<Rightarrow> bool" where
  "IsPrint r =
     (if r \<le> 0xFF then
        (if 0x20 \<le> r \<and> r \<le> 0x7E then True
         else if 0xA1 \<le> r \<and> r \<le> 0xFF then r \<noteq> 0xAD
         else False)
      else list_ex (\<lambda>(lo, hi). lo \<le> r \<and> r \<le> hi) print_ranges)"

text \<open>The hexadecimal digits of \<open>r\<close>, \<open>n\<close> of them, from \<open>lowerhex\<close>.\<close>

definition lowerhex :: "nat \<Rightarrow> int \<Rightarrow> string" where
  "lowerhex n r = map (\<lambda>k. ''0123456789abcdef'' ! nat (r div 16 ^ k mod 16)) (rev [0..<n])"

text \<open>
  \<open>appendEscapedRune\<close> for the double quote as the quote character, without the
  restriction to ASCII: the quote and the backslash get a backslash, a printable rune
  is appended in UTF-8 (\<open>enc\<close>, the bytes it was decoded from), and every other rune is
  written as \<open>\a \b \f \n \r \t \v\<close>, \<open>\xNN\<close>, \<open>\uNNNN\<close> or \<open>\UNNNNNNNN\<close>.
  Go's branch for a value that is no valid rune is left out: a decoded rune always is one.
\<close>

definition appendEscapedRune :: "int \<Rightarrow> string \<Rightarrow> string" where
  "appendEscapedRune r enc =
     (if r = 0x22 \<or> r = 0x5C then CHR 0x5C # enc
      else if IsPrint r then enc
      else if r = 0x07 then [CHR 0x5C, CHR ''a'']
      else if r = 0x08 then [CHR 0x5C, CHR ''b'']
      else if r = 0x0C then [CHR 0x5C, CHR ''f'']
      else if r = 0x0A then [CHR 0x5C, CHR ''n'']
      else if r = 0x0D then [CHR 0x5C, CHR ''r'']
      else if r = 0x09 then [CHR 0x5C, CHR ''t'']
      else if r = 0x0B then [CHR 0x5C, CHR ''v'']
      else if r < 0x20 \<or> r = 0x7F then [CHR 0x5C, CHR ''x''] @ lowerhex 2 r
      else if r < 0x10000 then [CHR 0x5C, CHR ''u''] @ lowerhex 4 r
      else [CHR 0x5C, CHR ''U''] @ lowerhex 8 r)"

text \<open>
  The loop of \<open>appendQuotedWith\<close>: a byte below 0x80 is its own rune, an invalid byte is
  written as \<open>\xNN\<close>, and the loop goes on behind the bytes of the rune.
\<close>

function appendQuoted :: "string \<Rightarrow> string" where
  "appendQuoted [] = []"
| "appendQuoted (c # s) =
     (let (r, width) = (if (of_char c :: int) < 0x80 then (of_char c, 1)
                        else DecodeRuneInString (c # s))
      in (if width = 1 \<and> r = RuneError then [CHR 0x5C, CHR ''x''] @ lowerhex 2 (of_char c)
          else appendEscapedRune r (take width (c # s)))
         @ appendQuoted (drop width (c # s)))"
  by pat_completeness auto
termination
  by (relation "measure length")
     (auto simp: DecodeRuneInString_def Let_def split: if_splits)

declare appendQuoted.simps [simp del]

definition Quote :: "string \<Rightarrow> string" where
  "Quote s = [CHR 0x22] @ appendQuoted s @ [CHR 0x22]"

subsection \<open>Errors\<close>

text \<open>
  The \<open>error\<close> values the checker can meet: the two sentinels of package context, an
  \<open>errors.New\<close> value, and the \<open>*url.Error\<close> (operation, URL, cause) in which
  \<open>http.Client.Do\<close> wraps every error it returns.  \<open>Error\<close> is the method \<open>Error()\<close>.
\<close>

datatype go_error =
    DeadlineExceeded
  | Canceled
  | ErrorString string
  | UrlError string string go_error

fun Error :: "go_error \<Rightarrow> string" where
  "Error DeadlineExceeded = ''context deadline exceeded''"
| "Error Canceled = ''context canceled''"
| "Error (ErrorString s) = s"
| "Error (UrlError op u err) = op @ '' '' @ Quote u @ '': '' @ Error err"

section \<open>The data model (internal/monitor/types.go)\<close>

record Target =
  Name :: string
  URL :: string
  Method :: string
  Interval :: int
  Timeout :: int
  ExpectedStatus :: int
  Contains :: string
  MaxBodyBytes :: int
  Enabled :: bool
  Tags :: "string list"

record CheckJob =
  Job_Target :: Target
  Job_ScheduledAt :: int
  Job_Attempt :: int

record CheckResult =
  Res_TargetName :: string
  Res_URL :: string
  Res_At :: int
  Res_Latency :: int
  Res_Up :: bool
  Res_StatusCode :: int
  Res_Error :: string
  Res_Validation :: string
  Res_Attempt :: int

section \<open>The checker (internal/monitor/httpcheck.go)\<close>

definition errorsIsContextDeadline :: "go_error \<Rightarrow> bool" where
  "errorsIsContextDeadline err \<longleftrightarrow>
     err = DeadlineExceeded \<or> strings_Contains (Error err) ''context deadline exceeded''"

definition errorsIsContextCanceled :: "go_error \<Rightarrow> bool" where
  "errorsIsContextCanceled err \<longleftrightarrow>
     err = Canceled \<or> strings_Contains (Error err) ''context canceled''"

definition classifyHTTPError :: "go_error \<Rightarrow> string" where
  "classifyHTTPError err =
     (if errorsIsContextDeadline err then ''timeout''
      else if errorsIsContextCanceled err then ''canceled''
      else Error err)"

text \<open>
  What the network does during one check is an input of the model.  The request cannot
  be built (\<open>http.NewRequestWithContext\<close> fails), or \<open>client.Do\<close> fails with a
  \<open>*url.Error\<close>, or a response arrives with a status code and a body.  A body is the
  bytes it delivers, followed by the end of the stream or by a read error.
\<close>

datatype body = Body string "go_error option"

datatype http_outcome =
    BuildFails go_error
  | DoFails string string go_error
  | Responds int body

record probe =
  now :: int
  elapsed :: int
  outcome :: http_outcome

text \<open>
  \<open>io.ReadAll(io.LimitReader(resp.Body, n))\<close> for \<open>n > 0\<close>: the limited reader reports
  the end of the stream once \<open>n\<close> bytes are read, without asking the body again;
  a shorter body is read to its end, where its read error, if any, comes out.
\<close>

definition ReadAllLimit :: "body \<Rightarrow> int \<Rightarrow> go_error + string" where
  "ReadAllLimit b n =
     (case b of Body bytes fail \<Rightarrow>
        if n \<le> int (length bytes) then Inr (take (nat n) bytes)
        else (case fail of None \<Rightarrow> Inr bytes | Some err \<Rightarrow> Inl err))"

definition CheckOnce :: "probe \<Rightarrow> Target \<Rightarrow> CheckResult" where
  "CheckOnce w t =
     (let res = \<lparr>Res_TargetName = Name t, Res_URL = URL t, Res_At = now w, Res_Latency = 0,
                 Res_Up = False, Res_StatusCode = 0, Res_Error = [], Res_Validation = [],
                 Res_Attempt = 1\<rparr>
      in case outcome w of
           BuildFails err \<Rightarrow>
             res\<lparr>Res_Up := False, Res_Error := ''build request: '' @ Error err,
                 Res_Latency := elapsed w\<rparr>
         | DoFails op u cause \<Rightarrow>
             res\<lparr>Res_Up := False, Res_Error := classifyHTTPError (UrlError op u cause),
                 Res_Latency := elapsed w\<rparr>
         | Responds code b \<Rightarrow>
             (let res = res\<lparr>Res_StatusCode := code, Res_Latency := elapsed w\<rparr>
              in if ExpectedStatus t \<noteq> 0 \<and> code \<noteq> ExpectedStatus t then
                   res\<lparr>Res_Up := False,
                       Res_Validation := ''unexpected status: got '' @ Itoa code @ '' want ''
                                          @ Itoa (ExpectedStatus t)\<rparr>
                 else if ExpectedStatus t = 0 \<and> (code < 200 \<or> code \<ge> 400) then
                   res\<lparr>Res_Up := False, Res_Validation := ''bad status: '' @ Itoa code\<rparr>
                 else
                   (let contains = TrimSpace (Contains t)
                    in if contains \<noteq> [] then
                         if ToUpper (Method t) = ''HEAD'' then
                           res\<lparr>Res_Up := False,
                               Res_Validation :=
                                 ''contains check configured but method is HEAD (no body)''\<rparr>
                         else
                           (let maxBytes = (if MaxBodyBytes t \<le> 0 then 64 * 1024
                                            else MaxBodyBytes t)
                            in case ReadAllLimit b maxBytes of
                                 Inl readErr \<Rightarrow>
                                   res\<lparr>Res_Up := False,
                                       Res_Error := ''read body: '' @ Error readErr\<rparr>
                               | Inr bodyBytes \<Rightarrow>
                                   if \<not> strings_Contains bodyBytes contains then
                                     res\<lparr>Res_Up := False,
                                         Res_Validation := ''keyword missing: '' @ Quote contains\<rparr>
                                   else res\<lparr>Res_Up := True, Res_Error := [],
                                            Res_Validation := []\<rparr>)
                       else res\<lparr>Res_Up := True, Res_Error := [], Res_Validation := []\<rparr>)))"

section \<open>The worker (internal/monitor/worker.go)\<close>

text \<open>
  One iteration of a worker: the check runs under the job's deadline (what the deadline
  does to the request is part of the \<^typ>\<open>probe\<close>), then the fields that belong to
  the job are stamped on the result.
\<close>

definition runJob :: "probe \<Rightarrow> CheckJob \<Rightarrow> CheckResult" where
  "runJob w job =
     (CheckOnce w (Job_Target job))
       \<lparr>Res_Attempt := Job_Attempt job,
        Res_TargetName := Name (Job_Target job),
        Res_URL := URL (Job_Target job)\<rparr>"

section \<open>The aggregator\<close>

record State =
  St_Name :: string
  St_URL :: string
  St_LastUp :: bool
  St_LastChecked :: int
  St_LastLatency :: int
  St_LastStatusCode :: int
  St_LastError :: string
  St_ConsecutiveSuccess :: int
  St_ConsecutiveFail :: int
  St_TotalChecks :: int
  St_TotalFails :: int
  St_History :: "CheckResult list"

text \<open>The event as the aggregator and the incident collector use it, with reason and status code.\<close>

record Event =
  Ev_TargetName :: string
  Ev_URL :: string
  Ev_From :: bool
  Ev_To :: bool
  Ev_At :: int
  Ev_Reason :: string
  Ev_StatusCode :: int

definition updateState :: "int \<Rightarrow> State \<Rightarrow> CheckResult \<Rightarrow> State" where
  "updateState clock state res =
     (let state = state\<lparr>St_LastChecked := clock,
                        St_LastUp := Res_Up res,
                        St_Name := Res_TargetName res,
                        St_LastLatency := Res_Latency res,
                        St_LastStatusCode := Res_StatusCode res,
                        St_URL := Res_URL res,
                        St_TotalChecks := wrap64 (St_TotalChecks state + 1)\<rparr>
      in if Res_Up res then
           state\<lparr>St_ConsecutiveSuccess := wrap64 (St_ConsecutiveSuccess state + 1),
                 St_ConsecutiveFail := 0\<rparr>
         else
           state\<lparr>St_TotalFails := wrap64 (St_TotalFails state + 1),
                 St_ConsecutiveFail := wrap64 (St_ConsecutiveFail state + 1),
                 St_LastError := Res_Error res\<rparr>)"

text \<open>
  What one iteration of the aggregator's loop receives: the result, the clock, what
  \<open>loadStateFromDB\<close> returns for the target (it reads the external table
  \<open>check_results\<close>; \<open>None\<close> is the nil state of a nil pool, of a failed query and of
  a target without rows), and how the \<open>select\<close> that sends an event ends: the event
  queue takes the event (\<open>Sent\<close>), or the context is done first (\<open>CtxDone\<close>).
\<close>

datatype send_outcome = Sent | CtxDone

record agg_input =
  In_res :: CheckResult
  In_clock :: int
  In_loaded :: "State option"
  In_send :: send_outcome

text \<open>The state the iteration works on: the one in the map, else the loaded one, else a new one.\<close>

definition locateState :: "(string \<rightharpoonup> State) \<Rightarrow> agg_input \<Rightarrow> State" where
  "locateState state i =
     (let res = In_res i
      in case state (Res_TargetName res) of
           Some st \<Rightarrow> st
         | None \<Rightarrow>
             (case In_loaded i of
                Some loaded \<Rightarrow> loaded
              | None \<Rightarrow>
                  \<lparr>St_Name = Res_TargetName res, St_URL = Res_URL res, St_LastUp = False,
                   St_LastChecked = 0, St_LastLatency = 0, St_LastStatusCode = 0,
                   St_LastError = [], St_ConsecutiveSuccess = 0, St_ConsecutiveFail = 0,
                   St_TotalChecks = 0, St_TotalFails = 0, St_History = []\<rparr>))"

text \<open>
  One iteration for a received result, up to the \<open>select\<close> that sends: the new state
  map and the event the iteration emits, if any.  Persisting the raw result and
  publishing the snapshot do not touch the state map or the event queue and are left
  out.
\<close>

definition Aggregator_step ::
  "(string \<rightharpoonup> State) \<Rightarrow> agg_input \<Rightarrow> (string \<rightharpoonup> State) \<times> Event option" where
  "Aggregator_step state i =
     (let res = In_res i;
          st = locateState state i;
          prevUp = St_LastUp st;
          st = updateState (In_clock i) st res;
          state = state(Res_TargetName res \<mapsto> st)
      in if 1 < St_TotalChecks st \<and> prevUp \<noteq> Res_Up res then
           (state, Some \<lparr>Ev_TargetName = Res_TargetName res, Ev_URL = Res_URL res,
                          Ev_From = prevUp, Ev_To = Res_Up res, Ev_At = Res_At res,
                          Ev_Reason = Res_Error res, Ev_StatusCode = Res_StatusCode res\<rparr>)
         else (state, None))"

text \<open>
  The \<open>select\<close> that sends the event: \<open>eventsCh\<close> is the sequence of the events sent
  so far.
\<close>

definition send_event :: "send_outcome \<Rightarrow> Event list \<Rightarrow> Event \<Rightarrow> Event list" where
  "send_event sel eventsCh event =
     (case sel of Sent \<Rightarrow> eventsCh @ [event] | CtxDone \<Rightarrow> eventsCh)"

text \<open>The loop, over the results it receives before it returns; the state map starts empty.\<close>

fun Aggregator_loop ::
  "(string \<rightharpoonup> State) \<Rightarrow> Event list \<Rightarrow> agg_input list \<Rightarrow> (string \<rightharpoonup> State) \<times> Event list" where
  "Aggregator_loop state eventsCh [] = (state, eventsCh)"
| "Aggregator_loop state eventsCh (i # rest) =
     (case Aggregator_step state i of
        (state1, None) \<Rightarrow> Aggregator_loop state1 eventsCh rest
      | (state1, Some event) \<Rightarrow>
          Aggregator_loop state1 (send_event (In_send i) eventsCh event) rest)"

definition Aggregator :: "agg_input list \<Rightarrow> (string \<rightharpoonup> State) \<times> Event list" where
  "Aggregator inputs = Aggregator_loop Map.empty [] inputs"

text \<open>
  The transitions of a sequence of results in the words of the specification: an event
  for a result whose up-value differs from the up-value of the result before it for the
  same target, and none for the first result of a target.
\<close>

fun transitions :: "(string \<rightharpoonup> bool) \<Rightarrow> CheckResult list \<Rightarrow> Event list" where
  "transitions prev [] = []"
| "transitions prev (res # rest) =
     (case prev (Res_TargetName res) of
        None \<Rightarrow> []
      | Some up \<Rightarrow>
          if up \<noteq> Res_Up res then
            [\<lparr>Ev_TargetName = Res_TargetName res, Ev_URL = Res_URL res, Ev_From = up,
              Ev_To = Res_Up res, Ev_At = Res_At res, Ev_Reason = Res_Error res,
              Ev_StatusCode = Res_StatusCode res\<rparr>]
          else [])
     @ transitions (prev(Res_TargetName res \<mapsto> Res_Up res)) rest"

text \<open>
  The invariant that relates the two: the state map and the map of the last up-values
  agree, and every state has counted between 1 and \<open>n\<close> checks.
\<close>

definition tracks :: "(string \<rightharpoonup> State) \<Rightarrow> (string \<rightharpoonup> bool) \<Rightarrow> int \<Rightarrow> bool" where
  "tracks state prev n \<longleftrightarrow>
     (\<forall>name. case state name of
               None \<Rightarrow> prev name = None
             | Some st \<Rightarrow> prev name = Some (St_LastUp st)
                          \<and> 1 \<le> St_TotalChecks st \<and> St_TotalChecks st \<le> n)"

section \<open>The incident collector and the table of incidents\<close>

text \<open>
  A row of table \<open>incidents\<close>.  The columns \<open>id\<close>, \<open>created_at\<close> and \<open>updated_at\<close>
  are filled by the database and read by no code; they are left out.  A nullable column
  is an option.
\<close>

record Incident =
  Inc_target_name :: string
  Inc_probe :: string
  Inc_started_at :: int
  Inc_ended_at :: "int option"
  Inc_start_status :: string
  Inc_start_status_code :: "int option"
  Inc_start_error :: "string option"
  Inc_end_status :: "string option"
  Inc_end_status_code :: "int option"
  Inc_end_error :: "string option"

definition NULLIF :: "'a \<Rightarrow> 'a \<Rightarrow> 'a option" where
  "NULLIF a b = (if a = b then None else Some a)"

text \<open>\<open>target_name = $1 AND probe = $2 AND ended_at IS NULL\<close>\<close>

definition active_for :: "string \<Rightarrow> string \<Rightarrow> Incident \<Rightarrow> bool" where
  "active_for target probe r \<longleftrightarrow>
     Inc_target_name r = target \<and> Inc_probe r = probe \<and> Inc_ended_at r = None"

text \<open>
  The unique index \<open>uq_incidents_one_active\<close> on \<open>(target_name, probe) where ended_at
  is null\<close>: the keys of the rows that are not ended are distinct.  An insert that would
  break it is refused.
\<close>

definition uq_incidents_one_active :: "Incident list \<Rightarrow> bool" where
  "uq_incidents_one_active tbl \<longleftrightarrow>
     distinct (map (\<lambda>r. (Inc_target_name r, Inc_probe r))
                   (filter (\<lambda>r. Inc_ended_at r = None) tbl))"

definition insert_incident :: "Incident list \<Rightarrow> Incident \<Rightarrow> go_error + Incident list" where
  "insert_incident tbl row =
     (if uq_incidents_one_active (tbl @ [row]) then Inr (tbl @ [row])
      else Inl (ErrorString ''duplicate key value violates unique constraint''))"

definition statusFromEvent :: "Event \<Rightarrow> string" where
  "statusFromEvent ev = (if Ev_To ev then ''UP'' else ''DOWN'')"

text \<open>
  \<open>persistIncident\<close> runs one statement.  \<open>fail\<close> is the error of a statement the
  database could not run (no connection, context done); the table is then unchanged.
\<close>

definition persistIncident ::
  "go_error option \<Rightarrow> Incident list \<Rightarrow> Event \<Rightarrow> Incident list \<times> go_error option" where
  "persistIncident fail tbl ev =
     (case fail of
        Some err \<Rightarrow> (tbl, Some err)
      | None \<Rightarrow>
          if Ev_To ev = False then
            (if \<not> (\<exists>r \<in> set tbl. active_for (Ev_TargetName ev) ''primary'' r) then
               (case insert_incident tbl
                       \<lparr>Inc_target_name = Ev_TargetName ev, Inc_probe = ''primary'',
                        Inc_started_at = Ev_At ev, Inc_ended_at = None,
                        Inc_start_status = statusFromEvent ev,
                        Inc_start_status_code = NULLIF (Ev_StatusCode ev) 0,
                        Inc_start_error = NULLIF (Ev_Reason ev) [],
                        Inc_end_status = None, Inc_end_status_code = None,
                        Inc_end_error = None\<rparr> of
                  Inl err \<Rightarrow> (tbl, Some err)
                | Inr tbl' \<Rightarrow> (tbl', None))
             else (tbl, None))
          else
            (map (\<lambda>r. if active_for (Ev_TargetName ev) ''primary'' r then
                         r\<lparr>Inc_ended_at := Some (Ev_At ev),
                           Inc_end_status := Some ''UP'',
                           Inc_end_status_code := NULLIF (Ev_StatusCode ev) 0,
                           Inc_end_error := NULLIF (Ev_Reason ev) []\<rparr>
                       else r) tbl,
             None))"

text \<open>
  The collector's loop over the events it receives, each with the database's answer.
  A nil pool (\<open>None\<close>) skips every event.  The second component is the log.
\<close>

fun IncidentCollector ::
  "Incident list option \<Rightarrow> (Event \<times> go_error option) list \<Rightarrow> Incident list option \<times> string list" where
  "IncidentCollector dbpool [] = (dbpool, [])"
| "IncidentCollector None (e # rest) = IncidentCollector None rest"
| "IncidentCollector (Some tbl) ((e, fail) # rest) =
     (case persistIncident fail tbl e of
        (tbl', None) \<Rightarrow> IncidentCollector (Some tbl') rest
      | (tbl', Some err) \<Rightarrow>
          (let (db, logs) = IncidentCollector (Some tbl') rest
           in (db, (''incident persist failed for '' @ Ev_TargetName e @ '': '' @ Error err) # logs)))"

section \<open>The scheduler\<close>

subsection \<open>Channels and select\<close>

text \<open>
  A channel is its buffer, its capacity and the number of goroutines that wait in a
  receive on it.  A receiver waits only while the buffer is empty, and the buffer never
  holds more than the capacity (\<open>chan_inv\<close>).  A send can proceed when a receiver
  waits, which then takes the value at once, or when the buffer has room
  (\<open>chansend\<close> of the runtime); an unbuffered channel has capacity 0.  The program
  makes its channels with a capacity and never closes one, so nil and closed channels
  are left out.
\<close>

record 'a chan =
  Ch_buf :: "'a list"
  Ch_cap :: nat
  Ch_recvq :: nat

definition chan_inv :: "'a chan \<Rightarrow> bool" where
  "chan_inv ch \<longleftrightarrow>
     length (Ch_buf ch) \<le> Ch_cap ch \<and> (0 < Ch_recvq ch \<longrightarrow> Ch_buf ch = [])"

definition send_ready :: "'a chan \<Rightarrow> bool" where
  "send_ready ch \<longleftrightarrow> 0 < Ch_recvq ch \<or> length (Ch_buf ch) < Ch_cap ch"

text \<open>A send that proceeds: the channel after it, and the value when a receiver took it.\<close>

definition chansend :: "'a chan \<Rightarrow> 'a \<Rightarrow> 'a chan \<times> 'a option" where
  "chansend ch x =
     (if 0 < Ch_recvq ch then (ch\<lparr>Ch_recvq := Ch_recvq ch - 1\<rparr>, Some x)
      else (ch\<lparr>Ch_buf := Ch_buf ch @ [x]\<rparr>, None))"

text \<open>
  A \<open>select\<close> takes one of the cases that can proceed (\<open>pick\<close> is the runtime's
  random choice among them); when none can, it takes the default case if it has one and
  blocks otherwise.
\<close>

datatype select_outcome = Case nat | DefaultCase | Blocks

definition go_select :: "nat \<Rightarrow> bool list \<Rightarrow> bool \<Rightarrow> select_outcome" where
  "go_select pick ready has_default =
     (let rs = filter (\<lambda>k. ready ! k) [0..<length ready]
      in if rs \<noteq> [] then Case (rs ! (pick mod length rs))
         else if has_default then DefaultCase
         else Blocks)"

text \<open>
  \<open>enqueueJob\<close>: the cases of its \<open>select\<close> are the send on \<open>jobsCh\<close> and
  \<open>ctx.Done()\<close>, and it has a default case.  The result is the channel, the job when a
  waiting worker took it, and the lines logged; \<open>None\<close> would be a call that blocks.
\<close>

definition enqueueJob ::
  "bool \<Rightarrow> nat \<Rightarrow> int \<Rightarrow> CheckJob chan \<Rightarrow> Target
     \<Rightarrow> (CheckJob chan \<times> CheckJob option \<times> string list) option" where
  "enqueueJob ctx_done pick clock jobsCh target =
     (let job = \<lparr>Job_Target = target, Job_ScheduledAt = clock, Job_Attempt = 1\<rparr>
      in case go_select pick [send_ready jobsCh, ctx_done] True of
           Case k \<Rightarrow>
             if k = 0 then
               (case chansend jobsCh job of (jobsCh', taken) \<Rightarrow> Some (jobsCh', taken, []))
             else Some (jobsCh, None, [])
         | DefaultCase \<Rightarrow>
             Some (jobsCh, None,
                   [''[WARN] jobsCh full; dropping job for target='' @ Name target])
         | Blocks \<Rightarrow> None)"

subsection \<open>The jittered interval\<close>

text \<open>
  \<open>float64(interval) * jitterFraction\<close> is computed in IEEE 754 double precision,
  rounding to nearest, ties to even.  \<open>bitlen\<close> counts the bits of a positive
  integer and \<open>round53\<close> rounds it to 53 significant bits, so \<open>round53 interval\<close>
  is \<open>float64(interval)\<close>.  The double nearest to the constant 0.2 is
  \<open>3602879701896397 / 2^54\<close>, so the product of the double \<open>x\<close> with it is
  \<open>round53 (x * 3602879701896397) / 2^54\<close>, and the conversion to \<open>time.Duration\<close>
  drops the fraction.  The function is used for positive intervals only.
\<close>

function bitlen :: "int \<Rightarrow> nat" where
  "bitlen n = (if n \<le> 0 then 0 else Suc (bitlen (n div 2)))"
  by pat_completeness auto
termination
  by (relation "measure nat") auto

declare bitlen.simps [simp del]

definition round53 :: "int \<Rightarrow> int" where
  "round53 n =
     (let shift = bitlen n - 53
      in if shift = 0 then n
         else (let q = n div 2 ^ shift;
                   r = n mod 2 ^ shift;
                   half = 2 ^ (shift - 1)
               in (if half < r \<or> (r = half \<and> odd q) then q + 1 else q) * 2 ^ shift))"

definition maxJitter_of :: "int \<Rightarrow> int" where
  "maxJitter_of interval = round53 (round53 interval * 3602879701896397) div 2 ^ 54"

text \<open>
  \<open>rand.Int63n(n)\<close> panics for \<open>n \<le> 0\<close> and otherwise returns \<open>v % n\<close> for a
  random \<open>v\<close> of 63 bits; \<open>v\<close> is an input.  \<open>None\<close> is the panic.
\<close>

definition Int63n :: "nat \<Rightarrow> int \<Rightarrow> int option" where
  "Int63n v n = (if n \<le> 0 then None else Some (int v mod n))"

definition jitteredInterval :: "nat \<Rightarrow> int \<Rightarrow> int option" where
  "jitteredInterval v interval =
     (if interval \<le> 0 then Some Millisecond
      else
        (let maxJitter = maxJitter_of interval
         in case Int63n v (wrap64 (wrap64 (maxJitter * 2) + 1)) of
              None \<Rightarrow> None
            | Some r \<Rightarrow>
                (let jitter = wrap64 (r - maxJitter);
                     delay = wrap64 (interval + jitter)
                 in if delay < Millisecond then Some Millisecond else Some delay)))"

section \<open>Example values\<close>

text \<open>The target and the checks of the scenarios, used to instantiate the theorems below.\<close>

definition target_Alpha :: Target where
  "target_Alpha =
     \<lparr>Name = ''Alpha'', URL = ''http://alpha.test/health'', Method = ''GET'',
      Interval = 30000000000, Timeout = 5000000000, ExpectedStatus = 200,
      Contains = [], MaxBodyBytes = 0, Enabled = True, Tags = []\<rparr>"

definition target_OK :: Target where
  "target_OK = target_Alpha\<lparr>Contains := ''OK''\<rparr>"

definition probe_200 :: "string \<Rightarrow> probe" where
  "probe_200 bytes = \<lparr>now = 1000, elapsed = 20, outcome = Responds 200 (Body bytes None)\<rparr>"

definition probe_503 :: probe where
  "probe_503 = \<lparr>now = 2000, elapsed = 20, outcome = Responds 503 (Body [] None)\<rparr>"

definition probe_deadline :: probe where
  "probe_deadline =
     \<lparr>now = 2000, elapsed = 5000000000,
      outcome = DoFails ''Get'' ''http://alpha.test/health'' DeadlineExceeded\<rparr>"

definition probe_canceled :: probe where
  "probe_canceled =
     \<lparr>now = 2000, elapsed = 30,
      outcome = DoFails ''Get'' ''http://alpha.test/health'' Canceled\<rparr>"

text \<open>
  A connection that is refused; a cancellation and a refused connection for a URL whose
  query holds the words of the deadline error; a deadline that expires while the body
  is read.
\<close>

definition probe_refused :: probe where
  "probe_refused =
     \<lparr>now = 2000, elapsed = 30,
      outcome = DoFails ''Get'' ''http://alpha.test/health''
                  (ErrorString ''dial tcp 127.0.0.1:80: connect: connection refused'')\<rparr>"

definition probe_canceled_query :: probe where
  "probe_canceled_query =
     \<lparr>now = 2000, elapsed = 30,
      outcome = DoFails ''Get'' ''http://alpha.test/?q=context deadline exceeded'' Canceled\<rparr>"

definition probe_refused_query :: probe where
  "probe_refused_query =
     \<lparr>now = 2000, elapsed = 30,
      outcome = DoFails ''Get'' ''http://alpha.test/?q=context deadline exceeded''
                  (ErrorString ''dial tcp 127.0.0.1:80: connect: connection refused'')\<rparr>"

definition probe_read_deadline :: probe where
  "probe_read_deadline =
     \<lparr>now = 2000, elapsed = 40,
      outcome = Responds 200 (Body ''status: '' (Some DeadlineExceeded))\<rparr>"

definition job_of :: "Target \<Rightarrow> CheckJob" where
  "job_of t = \<lparr>Job_Target = t, Job_ScheduledAt = 0, Job_Attempt = 1\<rparr>"

text \<open>An iteration of the aggregator without history in the database and with a live context.\<close>

definition input_of :: "CheckResult \<Rightarrow> agg_input" where
  "input_of res =
     \<lparr>In_res = res, In_clock = Res_At res + Res_Latency res, In_loaded = None, In_send = Sent\<rparr>"

definition event_down :: Event where
  "event_down =
     \<lparr>Ev_TargetName = ''Alpha'', Ev_URL = ''http://alpha.test/health'', Ev_From = True,
      Ev_To = False, Ev_At = 2000, Ev_Reason = ''timeout'', Ev_StatusCode = 0\<rparr>"

definition event_up :: Event where
  "event_up =
     \<lparr>Ev_TargetName = ''Alpha'', Ev_URL = ''http://alpha.test/health'', Ev_From = False,
      Ev_To = True, Ev_At = 3000, Ev_Reason = [], Ev_StatusCode = 200\<rparr>"

definition incident_down :: Incident where
  "incident_down =
     \<lparr>Inc_target_name = ''Alpha'', Inc_probe = ''primary'', Inc_started_at = 2000,
      Inc_ended_at = None, Inc_start_status = ''DOWN'', Inc_start_status_code = None,
      Inc_start_error = Some ''timeout'', Inc_end_status = None,
      Inc_end_status_code = None, Inc_end_error = None\<rparr>"

section \<open>The checker: what a check returns\<close>

lemma TrimSpace_OK: "TrimSpace ''OK'' = ''OK''"
  by (simp add: TrimSpace_def space_runes_def strip_runes.simps)

lemma TrimSpace_Nil: "TrimSpace [] = []"
  by (simp add: TrimSpace_def space_runes_def strip_runes.simps)

lemma ToUpper_GET: "ToUpper ''GET'' \<noteq> ''HEAD''"
  by (simp add: ToUpper_def upper_byte_def)

lemma Quote_OK: "Quote ''OK'' = [CHR 0x22] @ ''OK'' @ [CHR 0x22]"
  by (simp add: Quote_def appendQuoted.simps appendEscapedRune_def IsPrint_def RuneError_def)

lemma ReadAllLimit_take:
  "ReadAllLimit (Body bytes fail) n = Inr got \<Longrightarrow> 0 < n \<Longrightarrow>
   got = take (nat n) bytes \<and> int (length got) \<le> n"
  by (auto simp: ReadAllLimit_def split: if_splits option.splits)

lemma ReadAllLimit_beyond:
  "0 < n \<Longrightarrow> n \<le> int (length bytes) \<Longrightarrow>
   ReadAllLimit (Body (bytes @ extra) fail') n = ReadAllLimit (Body bytes fail) n"
  by (auto simp: ReadAllLimit_def)

lemma Res_Up_CheckOnce:
  "Res_Up (CheckOnce w t) \<longleftrightarrow>
     (\<exists>code b. outcome w = Responds code b
        \<and> (if ExpectedStatus t \<noteq> 0 then code = ExpectedStatus t else 200 \<le> code \<and> code < 400)
        \<and> (TrimSpace (Contains t) = []
            \<or> (ToUpper (Method t) \<noteq> ''HEAD''
               \<and> (\<exists>bodyBytes.
                     ReadAllLimit b (if MaxBodyBytes t \<le> 0 then 65536 else MaxBodyBytes t)
                       = Inr bodyBytes
                     \<and> strings_Contains bodyBytes (TrimSpace (Contains t))))))"
  by (auto simp: CheckOnce_def Let_def split: http_outcome.splits sum.splits if_splits)

lemma status_mismatch:
  assumes "outcome w = Responds code b"
    and "\<not> (if ExpectedStatus t \<noteq> 0 then code = ExpectedStatus t else 200 \<le> code \<and> code < 400)"
  shows "\<not> Res_Up (CheckOnce w t) \<and> Res_Error (CheckOnce w t) = []
       \<and> Res_Validation (CheckOnce w t) =
           (if ExpectedStatus t \<noteq> 0
            then ''unexpected status: got '' @ Itoa code @ '' want '' @ Itoa (ExpectedStatus t)
            else ''bad status: '' @ Itoa code)"
  using assms
  by (auto simp: CheckOnce_def Let_def split: http_outcome.splits sum.splits if_splits)

text \<open>
  C3.  A check is up exactly when a response arrived (no build or transport failure),
  its status code matches the policy (equal to \<open>ExpectedStatus\<close> when that is not 0,
  otherwise in \<open>[200, 400)\<close>), and either no substring is required or the required
  substring occurs in the bytes read from the body without a read error.  The
  requirement is \<open>Contains\<close> with the surrounding white space trimmed; under method HEAD
  no body is read.  A response whose status does not match is down with a validation
  text that names the codes and with an empty error text.
\<close>

theorem CheckOnce_up_iff:
  "(Res_Up (CheckOnce w t) \<longleftrightarrow>
     (\<exists>code b. outcome w = Responds code b
        \<and> (if ExpectedStatus t \<noteq> 0 then code = ExpectedStatus t else 200 \<le> code \<and> code < 400)
        \<and> (TrimSpace (Contains t) = []
            \<or> (ToUpper (Method t) \<noteq> ''HEAD''
               \<and> (\<exists>bodyBytes.
                     ReadAllLimit b (if MaxBodyBytes t \<le> 0 then 65536 else MaxBodyBytes t)
                       = Inr bodyBytes
                     \<and> strings_Contains bodyBytes (TrimSpace (Contains t)))))))
   \<and> (\<forall>code b. outcome w = Responds code b
          \<and> \<not> (if ExpectedStatus t \<noteq> 0 then code = ExpectedStatus t
                else 200 \<le> code \<and> code < 400)
        \<longrightarrow> \<not> Res_Up (CheckOnce w t)
            \<and> Res_Error (CheckOnce w t) = []
            \<and> Res_Validation (CheckOnce w t) \<noteq> []
            \<and> Res_Validation (CheckOnce w t) =
                (if ExpectedStatus t \<noteq> 0
                 then ''unexpected status: got '' @ Itoa code @ '' want '' @ Itoa (ExpectedStatus t)
                 else ''bad status: '' @ Itoa code))"
proof (intro conjI allI impI)
  fix code b
  assume a: "outcome w = Responds code b
          \<and> \<not> (if ExpectedStatus t \<noteq> 0 then code = ExpectedStatus t
                else 200 \<le> code \<and> code < 400)"
  from a status_mismatch [of w code b t]
  show "\<not> Res_Up (CheckOnce w t)" and "Res_Error (CheckOnce w t) = []"
    and v: "Res_Validation (CheckOnce w t) =
                (if ExpectedStatus t \<noteq> 0
                 then ''unexpected status: got '' @ Itoa code @ '' want '' @ Itoa (ExpectedStatus t)
                 else ''bad status: '' @ Itoa code)"
    by blast+
  show "Res_Validation (CheckOnce w t) \<noteq> []"
    unfolding v by simp
qed (rule Res_Up_CheckOnce)

theorem CheckOnce_up_iff_witness:
  "Res_Up (CheckOnce (probe_200 ''status: OK'') target_OK)
   \<and> \<not> Res_Up (CheckOnce (probe_200 ''status: degraded'') target_OK)
   \<and> \<not> Res_Up (CheckOnce probe_503 target_OK)
   \<and> Res_Error (CheckOnce probe_503 target_OK) = []
   \<and> Res_Validation (CheckOnce probe_503 target_OK) = ''unexpected status: got 503 want 200''"
proof -
  have t: "TrimSpace (Contains target_OK) = ''OK''" "ToUpper (Method target_OK) \<noteq> ''HEAD''"
    "ExpectedStatus target_OK = 200" "MaxBodyBytes target_OK = 0"
    by (simp_all add: target_OK_def target_Alpha_def TrimSpace_OK ToUpper_GET)
  have r: "\<And>bytes. ReadAllLimit (Body bytes None) 65536 = Inr (take 65536 bytes)"
    by (simp add: ReadAllLimit_def)
  have c: "strings_Contains ''status: OK'' ''OK''" "\<not> strings_Contains ''status: degraded'' ''OK''"
    by (simp_all add: strings_Contains_def sublist_Cons_right)
  have i: "Itoa 503 = ''503''" "Itoa 200 = ''200''"
    by (simp_all add: Itoa_def digits.simps)
  show ?thesis
    using CheckOnce_up_iff [of "probe_200 ''status: OK''" target_OK]
      CheckOnce_up_iff [of "probe_200 ''status: degraded''" target_OK]
      CheckOnce_up_iff [of probe_503 target_OK]
    by (simp add: t r c i probe_200_def probe_503_def)
qed

text \<open>
  C9.  A GET target that requires \<open>"OK"\<close>, a response whose status passes, and a body
  whose bytes, read up to the limit without a read error, do not contain \<open>"OK"\<close>:
  the result is down, the validation text is \<open>keyword missing: "OK"\<close> (the double
  quote is the character 0x22) and the error text is empty.
\<close>

theorem keyword_missing_OK:
  assumes "Method t = ''GET''" and "Contains t = ''OK''"
    and "outcome w = Responds code b"
    and "if ExpectedStatus t \<noteq> 0 then code = ExpectedStatus t else 200 \<le> code \<and> code < 400"
    and "ReadAllLimit b (if MaxBodyBytes t \<le> 0 then 65536 else MaxBodyBytes t) = Inr bodyBytes"
    and "\<not> strings_Contains bodyBytes ''OK''"
  shows "Res_Up (CheckOnce w t) = False
       \<and> Res_Validation (CheckOnce w t) = ''keyword missing: '' @ [CHR 0x22] @ ''OK'' @ [CHR 0x22]
       \<and> Res_Error (CheckOnce w t) = []"
  using assms TrimSpace_OK ToUpper_GET Quote_OK
  by (auto simp: CheckOnce_def Let_def split: if_splits)

theorem keyword_missing_OK_witness:
  "Res_Up (CheckOnce (probe_200 ''status: degraded'') target_OK) = False
   \<and> Res_Validation (CheckOnce (probe_200 ''status: degraded'') target_OK)
       = ''keyword missing: '' @ [CHR 0x22] @ ''OK'' @ [CHR 0x22]
   \<and> Res_Error (CheckOnce (probe_200 ''status: degraded'') target_OK) = []"
proof -
  have h1: "Method target_OK = ''GET''" and h2: "Contains target_OK = ''OK''"
    by (simp_all add: target_OK_def target_Alpha_def)
  have h3: "outcome (probe_200 ''status: degraded'') = Responds 200 (Body ''status: degraded'' None)"
    by (simp add: probe_200_def)
  have h4: "if ExpectedStatus target_OK \<noteq> 0 then 200 = ExpectedStatus target_OK
            else 200 \<le> (200::int) \<and> (200::int) < 400"
    by (simp add: target_OK_def target_Alpha_def)
  have h5: "ReadAllLimit (Body ''status: degraded'' None)
              (if MaxBodyBytes target_OK \<le> 0 then 65536 else MaxBodyBytes target_OK)
            = Inr ''status: degraded''"
    by (simp add: ReadAllLimit_def target_OK_def target_Alpha_def)
  have h6: "\<not> strings_Contains ''status: degraded'' ''OK''"
    by (simp add: strings_Contains_def sublist_Cons_right)
  from keyword_missing_OK [OF h1 h2 h3 h4 h5 h6] show ?thesis .
qed

text \<open>
  C10.  With a substring required and \<open>MaxBodyBytes \<le> 0\<close> the check is the check with
  \<open>MaxBodyBytes = 65536\<close>: for a response whose status passes and a method other than
  HEAD, at most the first 65536 bytes of the body are read and the substring is looked
  for in them only, and what a body of 65536 bytes or more holds after them (bytes or
  a read error) does not change the result.
\<close>

theorem default_body_limit:
  assumes "MaxBodyBytes t \<le> 0" and "TrimSpace (Contains t) \<noteq> []"
  shows "CheckOnce w t = CheckOnce w (t\<lparr>MaxBodyBytes := 65536\<rparr>)
       \<and> (\<forall>code bytes fail.
             outcome w = Responds code (Body bytes fail)
             \<and> (if ExpectedStatus t \<noteq> 0 then code = ExpectedStatus t
                 else 200 \<le> code \<and> code < 400)
             \<and> ToUpper (Method t) \<noteq> ''HEAD''
           \<longrightarrow> (case ReadAllLimit (Body bytes fail) 65536 of
                  Inl readErr \<Rightarrow>
                    \<not> Res_Up (CheckOnce w t)
                    \<and> Res_Error (CheckOnce w t) = ''read body: '' @ Error readErr
                | Inr bodyBytes \<Rightarrow>
                    bodyBytes = take 65536 bytes \<and> length bodyBytes \<le> 65536
                    \<and> (Res_Up (CheckOnce w t)
                         \<longleftrightarrow> strings_Contains bodyBytes (TrimSpace (Contains t)))))
       \<and> (\<forall>code bytes extra fail fail'.
             65536 \<le> length bytes
           \<longrightarrow> CheckOnce (w\<lparr>outcome := Responds code (Body (bytes @ extra) fail')\<rparr>) t
               = CheckOnce (w\<lparr>outcome := Responds code (Body bytes fail)\<rparr>) t)"
proof (intro conjI allI impI)
  show "CheckOnce w t = CheckOnce w (t\<lparr>MaxBodyBytes := 65536\<rparr>)"
    using assms(1) by (simp add: CheckOnce_def Let_def split: http_outcome.splits)
next
  fix code bytes fail
  assume a: "outcome w = Responds code (Body bytes fail)
             \<and> (if ExpectedStatus t \<noteq> 0 then code = ExpectedStatus t
                 else 200 \<le> code \<and> code < 400)
             \<and> ToUpper (Method t) \<noteq> ''HEAD''"
  show "case ReadAllLimit (Body bytes fail) 65536 of
          Inl readErr \<Rightarrow>
            \<not> Res_Up (CheckOnce w t)
            \<and> Res_Error (CheckOnce w t) = ''read body: '' @ Error readErr
        | Inr bodyBytes \<Rightarrow>
            bodyBytes = take 65536 bytes \<and> length bodyBytes \<le> 65536
            \<and> (Res_Up (CheckOnce w t)
                 \<longleftrightarrow> strings_Contains bodyBytes (TrimSpace (Contains t)))"
  proof (cases "ReadAllLimit (Body bytes fail) 65536")
    case (Inl readErr)
    with a assms show ?thesis
      by (auto simp: CheckOnce_def Let_def split: if_splits)
  next
    case (Inr bodyBytes)
    from ReadAllLimit_take [OF Inr]
    have "bodyBytes = take 65536 bytes" "length bodyBytes \<le> 65536"
      by simp_all
    moreover from a assms Inr
    have "Res_Up (CheckOnce w t) \<longleftrightarrow> strings_Contains bodyBytes (TrimSpace (Contains t))"
      by (auto simp: CheckOnce_def Let_def split: if_splits)
    ultimately show ?thesis
      using Inr by simp
  qed
next
  fix code and bytes extra :: string and fail fail'
  assume "65536 \<le> length bytes"
  then have "ReadAllLimit (Body (bytes @ extra) fail') 65536 = ReadAllLimit (Body bytes fail) 65536"
    by (intro ReadAllLimit_beyond) simp_all
  with assms(1)
  show "CheckOnce (w\<lparr>outcome := Responds code (Body (bytes @ extra) fail')\<rparr>) t
        = CheckOnce (w\<lparr>outcome := Responds code (Body bytes fail)\<rparr>) t"
    by (simp add: CheckOnce_def Let_def)
qed

theorem default_body_limit_witness:
  "CheckOnce (probe_200 ''status: OK'') target_OK
     = CheckOnce (probe_200 ''status: OK'') (target_OK\<lparr>MaxBodyBytes := 65536\<rparr>)
   \<and> \<not> Res_Up (CheckOnce (probe_200 (replicate 65536 (CHR ''x'') @ ''OK'')) target_OK)
   \<and> Res_Up (CheckOnce (probe_200 (replicate 65534 (CHR ''x'') @ ''OK'')) target_OK)"
proof -
  let ?long = "replicate 65536 (CHR ''x'') @ ''OK''"
  let ?fits = "replicate 65534 (CHR ''x'') @ ''OK''"
  have t: "MaxBodyBytes target_OK \<le> 0" "TrimSpace (Contains target_OK) \<noteq> []"
    by (simp_all add: target_OK_def target_Alpha_def TrimSpace_OK)
  have u: "TrimSpace (Contains target_OK) = ''OK''"
    "ExpectedStatus target_OK = 200" "ToUpper (Method target_OK) \<noteq> ''HEAD''"
    by (simp_all add: target_OK_def target_Alpha_def TrimSpace_OK ToUpper_GET)
  have o: "\<And>bytes. outcome (probe_200 bytes) = Responds 200 (Body bytes None)"
    by (simp add: probe_200_def)
  have r1: "ReadAllLimit (Body ?long None) 65536 = Inr (replicate 65536 (CHR ''x''))"
    by (simp add: ReadAllLimit_def)
  have r2: "ReadAllLimit (Body ?fits None) 65536 = Inr ?fits"
    by (simp add: ReadAllLimit_def)
  have c1: "\<not> strings_Contains (replicate 65536 (CHR ''x'')) ''OK''"
  proof
    assume "strings_Contains (replicate 65536 (CHR ''x'')) ''OK''"
    then have "set ''OK'' \<subseteq> set (replicate 65536 (CHR ''x''))"
      unfolding strings_Contains_def by (rule set_mono_sublist)
    then show False by (simp)
  qed
  have c2: "strings_Contains ?fits ''OK''"
    unfolding strings_Contains_def by (rule sublist_append_leftI)
  note th = default_body_limit [OF t]
  have "CheckOnce (probe_200 ''status: OK'') target_OK
     = CheckOnce (probe_200 ''status: OK'') (target_OK\<lparr>MaxBodyBytes := 65536\<rparr>)"
    using th [of "probe_200 ''status: OK''"] by blast
  moreover have "\<not> Res_Up (CheckOnce (probe_200 ?long) target_OK)"
  proof -
    have "case ReadAllLimit (Body ?long None) 65536 of
            Inl readErr \<Rightarrow>
              \<not> Res_Up (CheckOnce (probe_200 ?long) target_OK)
              \<and> Res_Error (CheckOnce (probe_200 ?long) target_OK) = ''read body: '' @ Error readErr
          | Inr bodyBytes \<Rightarrow>
              bodyBytes = take 65536 ?long \<and> length bodyBytes \<le> 65536
              \<and> (Res_Up (CheckOnce (probe_200 ?long) target_OK)
                   \<longleftrightarrow> strings_Contains bodyBytes (TrimSpace (Contains target_OK)))"
      using th [of "probe_200 ?long"] o [of ?long] u(2,3) by auto
    then show ?thesis
      unfolding r1 u(1) using c1 by (simp)
  qed
  moreover have "Res_Up (CheckOnce (probe_200 ?fits) target_OK)"
  proof -
    have "case ReadAllLimit (Body ?fits None) 65536 of
            Inl readErr \<Rightarrow>
              \<not> Res_Up (CheckOnce (probe_200 ?fits) target_OK)
              \<and> Res_Error (CheckOnce (probe_200 ?fits) target_OK) = ''read body: '' @ Error readErr
          | Inr bodyBytes \<Rightarrow>
              bodyBytes = take 65536 ?fits \<and> length bodyBytes \<le> 65536
              \<and> (Res_Up (CheckOnce (probe_200 ?fits) target_OK)
                   \<longleftrightarrow> strings_Contains bodyBytes (TrimSpace (Contains target_OK)))"
      using th [of "probe_200 ?fits"] o [of ?fits] u(2,3) by auto
    then show ?thesis
      unfolding r2 u(1) using c2 by (simp)
  qed
  ultimately show ?thesis by blast
qed
subsection \<open>Timeout and cancellation\<close>

lemma space_in_UrlError: "CHR '' '' \<in> set (Error (UrlError op u cause))"
  by simp

lemma UrlError_text_not_keyword:
  "Error (UrlError op u cause) \<noteq> ''timeout''" "Error (UrlError op u cause) \<noteq> ''canceled''"
proof -
  have "CHR '' '' \<notin> set ''timeout''" "CHR '' '' \<notin> set ''canceled''" by simp_all
  then show "Error (UrlError op u cause) \<noteq> ''timeout''"
    and "Error (UrlError op u cause) \<noteq> ''canceled''"
    using space_in_UrlError [of op u cause] by metis+
qed

lemma Contains_wrapped:
  assumes "strings_Contains (Error cause) p"
  shows "strings_Contains (Error (UrlError op u cause)) p"
proof -
  from assms obtain ps ss where "Error cause = ps @ p @ ss"
    by (auto simp: strings_Contains_def sublist_def)
  then have "Error (UrlError op u cause) = (op @ '' '' @ Quote u @ '': '' @ ps) @ p @ ss"
    by simp
  then show ?thesis
    unfolding strings_Contains_def sublist_def by blast
qed

lemma deadline_wrapped: "errorsIsContextDeadline (UrlError op u DeadlineExceeded)"
proof -
  have "strings_Contains (Error DeadlineExceeded) ''context deadline exceeded''"
    by (simp add: strings_Contains_def)
  then show ?thesis
    unfolding errorsIsContextDeadline_def using Contains_wrapped by blast
qed

lemma sublist_across:
  assumes "sublist p (xs @ c # ys)" and "c \<notin> set p"
  shows "sublist p xs \<or> sublist p ys"
  using assms
proof (induction xs)
  case Nil
  then have "prefix p (c # ys) \<or> sublist p ys"
    by (simp add: sublist_Cons_right)
  with Nil.prems(2) show ?case
    by (cases p) auto
next
  case (Cons x xs)
  from Cons.prems(1) have "prefix p ((x # xs) @ c # ys) \<or> sublist p (xs @ c # ys)"
    by (simp add: sublist_Cons_right)
  then show ?case
  proof
    assume "sublist p (xs @ c # ys)"
    with Cons.IH Cons.prems(2) have "sublist p xs \<or> sublist p ys" by blast
    then show ?thesis
      by (auto simp: sublist_Cons_right)
  next
    assume "prefix p ((x # xs) @ c # ys)"
    then have "prefix p (x # xs) \<or> (\<exists>us. p = (x # xs) @ us \<and> prefix us (c # ys))"
      by (simp only: prefix_append)
    then show ?thesis
    proof
      assume "prefix p (x # xs)"
      then show ?thesis
        using prefix_imp_sublist by blast
    next
      assume "\<exists>us. p = (x # xs) @ us \<and> prefix us (c # ys)"
      then obtain us where us: "p = (x # xs) @ us" "prefix us (c # ys)" by blast
      with Cons.prems(2) have "us = []"
        by (cases us) auto
      with us show ?thesis by simp
    qed
  qed
qed

lemma canceled_text_deadline:
  "strings_Contains (Error (UrlError op u Canceled)) ''context deadline exceeded''
     \<longleftrightarrow> strings_Contains (op @ '' '' @ Quote u) ''context deadline exceeded''"
proof
  let ?p = "''context deadline exceeded''"
  let ?h = "op @ '' '' @ [CHR 0x22] @ appendQuoted u"
  have t: "Error (UrlError op u Canceled) = ?h @ CHR 0x22 # '': context canceled''"
    by (simp add: Quote_def)
  have q: "op @ '' '' @ Quote u = ?h @ [CHR 0x22]"
    by (simp add: Quote_def)
  assume "strings_Contains (Error (UrlError op u Canceled)) ?p"
  then have "sublist ?p (?h @ CHR 0x22 # '': context canceled'')"
    unfolding strings_Contains_def t .
  moreover have "CHR 0x22 \<notin> set ?p" by simp
  ultimately have "sublist ?p ?h \<or> sublist ?p '': context canceled''"
    by (rule sublist_across)
  moreover have "\<not> sublist ?p '': context canceled''"
  proof
    assume "sublist ?p '': context canceled''"
    then have "length ?p \<le> length '': context canceled''"
      by (rule sublist_length_le)
    then show False by simp
  qed
  ultimately have "sublist ?p ?h" by blast
  then have "sublist ?p (?h @ [CHR 0x22])"
    by (metis sublist_append)
  then show "strings_Contains (op @ '' '' @ Quote u) ?p"
    unfolding strings_Contains_def q .
next
  let ?p = "''context deadline exceeded''"
  assume "strings_Contains (op @ '' '' @ Quote u) ?p"
  then have "sublist ?p ((op @ '' '' @ Quote u) @ '': context canceled'')"
    unfolding strings_Contains_def by (metis sublist_append)
  then show "strings_Contains (Error (UrlError op u Canceled)) ?p"
    by (simp add: strings_Contains_def)
qed

lemma canceled_text_canceled:
  "strings_Contains (Error (UrlError op u Canceled)) ''context canceled''"
proof -
  have "strings_Contains (Error Canceled) ''context canceled''"
    by (simp add: strings_Contains_def)
  then show ?thesis by (rule Contains_wrapped)
qed

lemma classify_text:
  "classifyHTTPError (UrlError op u cause) =
     (if strings_Contains (Error (UrlError op u cause)) ''context deadline exceeded''
      then ''timeout''
      else if strings_Contains (Error (UrlError op u cause)) ''context canceled''
      then ''canceled''
      else Error (UrlError op u cause))"
  by (simp add: classifyHTTPError_def errorsIsContextDeadline_def errorsIsContextCanceled_def
        del: Error.simps)

lemma Res_Error_CheckOnce:
  "Res_Error (CheckOnce w t) =
     (case outcome w of
        BuildFails err \<Rightarrow> ''build request: '' @ Error err
      | DoFails op u cause \<Rightarrow> classifyHTTPError (UrlError op u cause)
      | Responds code b \<Rightarrow>
          if (if ExpectedStatus t \<noteq> 0 then code = ExpectedStatus t else 200 \<le> code \<and> code < 400)
             \<and> TrimSpace (Contains t) \<noteq> [] \<and> ToUpper (Method t) \<noteq> ''HEAD''
          then (case ReadAllLimit b (if MaxBodyBytes t \<le> 0 then 65536 else MaxBodyBytes t) of
                  Inl readErr \<Rightarrow> ''read body: '' @ Error readErr
                | Inr bodyBytes \<Rightarrow> [])
          else [])"
  by (auto simp: CheckOnce_def Let_def split: http_outcome.splits sum.splits)

lemma Res_Error_DoFails:
  assumes "outcome w = DoFails op u cause"
  shows "Res_Error (CheckOnce w t) =
     (if strings_Contains (Error (UrlError op u cause)) ''context deadline exceeded''
      then ''timeout''
      else if strings_Contains (Error (UrlError op u cause)) ''context canceled''
      then ''canceled''
      else Error (UrlError op u cause))"
  using assms by (simp add: Res_Error_CheckOnce classify_text del: Error.simps)

text \<open>
  C8, as the code has it.  A failure of \<open>client.Do\<close> is a \<open>*url.Error\<close> whose text is
  the operation, the quoted URL and the text of the cause, and \<open>classifyHTTPError\<close>
  decides by that text.  For every failure of \<open>client.Do\<close>: the error text of the
  check is \<open>"timeout"\<close> exactly when the text holds \<open>context deadline exceeded\<close>, as it
  does whenever the cause is the expired deadline; it is \<open>"canceled"\<close> exactly when
  the text holds \<open>context canceled\<close> and not the words of the deadline, so a
  cancellation is recorded as \<open>"canceled"\<close> unless the operation and the quoted URL hold
  the words of the deadline, and as \<open>"timeout"\<close> when they do; a failure whose text
  holds neither phrase is recorded with that text, which is neither word.
\<close>

theorem timeout_canceled_reason:
  assumes "outcome w = DoFails op u cause"
  shows "Res_Error (CheckOnce w t) =
           (if strings_Contains (op @ '' '' @ Quote u @ '': '' @ Error cause)
                 ''context deadline exceeded''
            then ''timeout''
            else if strings_Contains (op @ '' '' @ Quote u @ '': '' @ Error cause)
                      ''context canceled''
            then ''canceled''
            else op @ '' '' @ Quote u @ '': '' @ Error cause)
       \<and> (cause = DeadlineExceeded \<longrightarrow> Res_Error (CheckOnce w t) = ''timeout'')
       \<and> (cause = Canceled \<longrightarrow>
            Res_Error (CheckOnce w t) =
              (if strings_Contains (op @ '' '' @ Quote u) ''context deadline exceeded''
               then ''timeout'' else ''canceled''))
       \<and> (Res_Error (CheckOnce w t) = ''timeout'' \<longleftrightarrow>
            strings_Contains (op @ '' '' @ Quote u @ '': '' @ Error cause)
              ''context deadline exceeded'')
       \<and> (Res_Error (CheckOnce w t) = ''canceled'' \<longleftrightarrow>
            \<not> strings_Contains (op @ '' '' @ Quote u @ '': '' @ Error cause)
                  ''context deadline exceeded''
            \<and> strings_Contains (op @ '' '' @ Quote u @ '': '' @ Error cause)
                  ''context canceled'')
       \<and> op @ '' '' @ Quote u @ '': '' @ Error cause \<noteq> ''timeout''
       \<and> op @ '' '' @ Quote u @ '': '' @ Error cause \<noteq> ''canceled''"
proof -
  let ?text = "op @ '' '' @ Quote u @ '': '' @ Error cause"
  have t: "Error (UrlError op u cause) = ?text"
    by simp
  note r = Res_Error_DoFails [OF assms, of t, unfolded t]
  note k = UrlError_text_not_keyword [of op u cause, unfolded t]
  have d: "Res_Error (CheckOnce w t) = ''timeout''" if "cause = DeadlineExceeded"
  proof -
    have "strings_Contains (Error (UrlError op u DeadlineExceeded)) ''context deadline exceeded''"
      by (rule Contains_wrapped) (simp add: strings_Contains_def)
    with that show ?thesis
      unfolding r by simp
  qed
  have c: "Res_Error (CheckOnce w t) =
              (if strings_Contains (op @ '' '' @ Quote u) ''context deadline exceeded''
               then ''timeout'' else ''canceled'')" if "cause = Canceled"
    using canceled_text_canceled [of op u] canceled_text_deadline [of op u] that
    unfolding r by simp
  show ?thesis
    using r k d c by simp
qed

lemma Quote_health:
  "Quote ''http://alpha.test/health'' = [CHR 0x22] @ ''http://alpha.test/health'' @ [CHR 0x22]"
  by (simp add: Quote_def appendQuoted.simps appendEscapedRune_def IsPrint_def RuneError_def)

theorem timeout_canceled_reason_witness:
  "Res_Error (CheckOnce probe_deadline target_Alpha) = ''timeout''
   \<and> Res_Error (CheckOnce probe_canceled target_Alpha) = ''canceled''
   \<and> Res_Error (CheckOnce probe_refused target_Alpha)
       = ''Get '' @ [CHR 0x22] @ ''http://alpha.test/health'' @ [CHR 0x22]
           @ '': dial tcp 127.0.0.1:80: connect: connection refused''"
proof -
  let ?u = "''http://alpha.test/health''"
  let ?refused = "ErrorString ''dial tcp 127.0.0.1:80: connect: connection refused''"
  have d: "outcome probe_deadline = DoFails ''Get'' ?u DeadlineExceeded"
    by (simp add: probe_deadline_def)
  have c: "outcome probe_canceled = DoFails ''Get'' ?u Canceled"
    by (simp add: probe_canceled_def)
  have r: "outcome probe_refused = DoFails ''Get'' ?u ?refused"
    by (simp add: probe_refused_def)
  have p: "\<not> strings_Contains (''Get'' @ '' '' @ Quote ?u) ''context deadline exceeded''"
    unfolding Quote_health by (simp add: strings_Contains_def sublist_Cons_right)
  have n1: "\<not> strings_Contains (''Get'' @ '' '' @ Quote ?u @ '': '' @ Error ?refused)
                ''context deadline exceeded''"
    unfolding Error.simps Quote_health by (simp add: strings_Contains_def sublist_Cons_right)
  have n2: "\<not> strings_Contains (''Get'' @ '' '' @ Quote ?u @ '': '' @ Error ?refused)
                ''context canceled''"
    unfolding Error.simps Quote_health by (simp add: strings_Contains_def sublist_Cons_right)
  have "Res_Error (CheckOnce probe_deadline target_Alpha) = ''timeout''"
    using timeout_canceled_reason [OF d, of target_Alpha] by blast
  moreover have "Res_Error (CheckOnce probe_canceled target_Alpha) =
      (if strings_Contains (''Get'' @ '' '' @ Quote ?u) ''context deadline exceeded''
       then ''timeout'' else ''canceled'')"
    using timeout_canceled_reason [OF c, of target_Alpha] by blast
  moreover have "Res_Error (CheckOnce probe_refused target_Alpha)
                   = ''Get'' @ '' '' @ Quote ?u @ '': '' @ Error ?refused"
    using timeout_canceled_reason [OF r, of target_Alpha] n1 n2 by presburger
  ultimately show ?thesis
    using p by (simp add: Quote_health)
qed

text \<open>
  A cancelled request and a refused connection for a URL whose query holds the words of
  the deadline error are both recorded as \<open>"timeout"\<close>; a deadline that expires
  while the body is read is recorded as \<open>read body: context deadline exceeded\<close>, with
  the status code of the response.
\<close>

theorem timeout_canceled_reason_counterexample:
  "outcome probe_canceled_query
     = DoFails ''Get'' ''http://alpha.test/?q=context deadline exceeded'' Canceled
   \<and> Res_Error (CheckOnce probe_canceled_query target_Alpha) = ''timeout''
   \<and> Res_Error (CheckOnce probe_refused_query target_Alpha) = ''timeout''
   \<and> outcome probe_read_deadline = Responds 200 (Body ''status: '' (Some DeadlineExceeded))
   \<and> Res_Error (CheckOnce probe_read_deadline target_OK) = ''read body: context deadline exceeded''
   \<and> Res_StatusCode (CheckOnce probe_read_deadline target_OK) = 200"
proof -
  let ?u = "''http://alpha.test/?q=context deadline exceeded''"
  have q: "Quote ?u = [CHR 0x22] @ ''http://alpha.test/?q='' @ ''context deadline exceeded''
                        @ [CHR 0x22]"
    by (simp add: Quote_def appendQuoted.simps appendEscapedRune_def IsPrint_def RuneError_def)
  have s: "strings_Contains (Error (UrlError ''Get'' ?u cause)) ''context deadline exceeded''"
    for cause
  proof -
    have "Error (UrlError ''Get'' ?u cause)
          = (''Get '' @ [CHR 0x22] @ ''http://alpha.test/?q='') @ ''context deadline exceeded''
              @ ([CHR 0x22] @ '': '' @ Error cause)"
      unfolding Error.simps q by simp
    then show ?thesis
      unfolding strings_Contains_def sublist_def by blast
  qed
  have "Res_Error (CheckOnce probe_canceled_query target_Alpha) = ''timeout''"
    using s [of Canceled]
    by (simp add: Res_Error_CheckOnce classify_text probe_canceled_query_def del: Error.simps)
  moreover have "Res_Error (CheckOnce probe_refused_query target_Alpha) = ''timeout''"
    using s [of "ErrorString ''dial tcp 127.0.0.1:80: connect: connection refused''"]
    by (simp add: Res_Error_CheckOnce classify_text probe_refused_query_def del: Error.simps)
  moreover have "Res_Error (CheckOnce probe_read_deadline target_OK)
                   = ''read body: context deadline exceeded''"
    by (simp add: Res_Error_CheckOnce probe_read_deadline_def target_OK_def target_Alpha_def
          TrimSpace_OK ToUpper_GET ReadAllLimit_def)
  moreover have "Res_StatusCode (CheckOnce probe_read_deadline target_OK) = 200"
    by (simp add: CheckOnce_def probe_read_deadline_def target_OK_def target_Alpha_def
          TrimSpace_OK ToUpper_GET ReadAllLimit_def)
  ultimately show ?thesis
    by (simp add: probe_canceled_query_def probe_read_deadline_def)
qed

section \<open>The aggregator: streaks and transitions\<close>

lemma wrap64_id: "- (2 ^ 63) \<le> x \<Longrightarrow> x < 2 ^ 63 \<Longrightarrow> wrap64 x = x"
  by (simp add: wrap64_def)

lemma updateState_fields:
  "St_LastUp (updateState clock st res) = Res_Up res"
  "St_TotalChecks (updateState clock st res) = wrap64 (St_TotalChecks st + 1)"
  "St_ConsecutiveFail (updateState clock st res) =
     (if Res_Up res then 0 else wrap64 (St_ConsecutiveFail st + 1))"
  "St_ConsecutiveSuccess (updateState clock st res) =
     (if Res_Up res then wrap64 (St_ConsecutiveSuccess st + 1) else St_ConsecutiveSuccess st)"
  by (simp_all add: updateState_def Let_def)

lemma Aggregator_step_state:
  "fst (Aggregator_step state i) =
     state(Res_TargetName (In_res i) \<mapsto> updateState (In_clock i) (locateState state i) (In_res i))"
  by (simp add: Aggregator_step_def Let_def)

lemma Aggregator_step_event:
  "snd (Aggregator_step state i) =
     (if 1 < St_TotalChecks (updateState (In_clock i) (locateState state i) (In_res i))
         \<and> St_LastUp (locateState state i) \<noteq> Res_Up (In_res i)
      then Some \<lparr>Ev_TargetName = Res_TargetName (In_res i), Ev_URL = Res_URL (In_res i),
             Ev_From = St_LastUp (locateState state i), Ev_To = Res_Up (In_res i),
             Ev_At = Res_At (In_res i), Ev_Reason = Res_Error (In_res i),
             Ev_StatusCode = Res_StatusCode (In_res i)\<rparr>
      else None)"
  by (simp add: Aggregator_step_def Let_def)

lemma Aggregator_loop_Nil:
  "fst (Aggregator_loop state eventsCh []) = state"
  "snd (Aggregator_loop state eventsCh []) = eventsCh"
  by simp_all

lemma Aggregator_loop_Cons:
  "Aggregator_loop state eventsCh (i # rest) =
     Aggregator_loop (fst (Aggregator_step state i))
       (case snd (Aggregator_step state i) of
          None \<Rightarrow> eventsCh
        | Some event \<Rightarrow> send_event (In_send i) eventsCh event)
       rest"
  by (simp split: prod.splits option.splits)

lemma tracks_step:
  assumes "tracks state prev n" and "In_loaded i = None" and "0 \<le> n" and "n + 1 < 2 ^ 63"
  shows "tracks (fst (Aggregator_step state i))
           (prev(Res_TargetName (In_res i) \<mapsto> Res_Up (In_res i))) (n + 1)"
  unfolding tracks_def
proof
  fix name
  let ?key = "Res_TargetName (In_res i)"
  from assms(1) have at: "case state name of
               None \<Rightarrow> prev name = None
             | Some st \<Rightarrow> prev name = Some (St_LastUp st)
                          \<and> 1 \<le> St_TotalChecks st \<and> St_TotalChecks st \<le> n" for name
    by (simp add: tracks_def)
  show "case fst (Aggregator_step state i) name of
          None \<Rightarrow> (prev(?key \<mapsto> Res_Up (In_res i))) name = None
        | Some st \<Rightarrow> (prev(?key \<mapsto> Res_Up (In_res i))) name = Some (St_LastUp st)
                     \<and> 1 \<le> St_TotalChecks st \<and> St_TotalChecks st \<le> n + 1"
  proof (cases "name = ?key")
    case False
    with at [of name] show ?thesis
      by (auto simp: Aggregator_step_state split: option.splits)
  next
    case True
    have "0 \<le> St_TotalChecks (locateState state i) \<and> St_TotalChecks (locateState state i) \<le> n"
      using at [of ?key] assms(2,3) by (auto simp: locateState_def Let_def split: option.splits)
    with assms(4) have "wrap64 (St_TotalChecks (locateState state i) + 1)
        = St_TotalChecks (locateState state i) + 1"
      by (intro wrap64_id) auto
    with True \<open>0 \<le> St_TotalChecks (locateState state i) \<and> St_TotalChecks (locateState state i) \<le> n\<close>
    show ?thesis
      by (simp add: Aggregator_step_state updateState_fields)
  qed
qed

lemma event_step:
  assumes "tracks state prev n" and "In_loaded i = None"
    and "0 \<le> n" and "n + 1 < 2 ^ 63"
  shows "snd (Aggregator_step state i) =
           (case prev (Res_TargetName (In_res i)) of
              None \<Rightarrow> None
            | Some up \<Rightarrow>
                if up \<noteq> Res_Up (In_res i) then
                  Some \<lparr>Ev_TargetName = Res_TargetName (In_res i), Ev_URL = Res_URL (In_res i),
                    Ev_From = up, Ev_To = Res_Up (In_res i), Ev_At = Res_At (In_res i),
                    Ev_Reason = Res_Error (In_res i),
                    Ev_StatusCode = Res_StatusCode (In_res i)\<rparr>
                else None)"
proof -
  let ?key = "Res_TargetName (In_res i)"
  from assms(1) have at: "case state ?key of
               None \<Rightarrow> prev ?key = None
             | Some st \<Rightarrow> prev ?key = Some (St_LastUp st)
                          \<and> 1 \<le> St_TotalChecks st \<and> St_TotalChecks st \<le> n"
    by (simp add: tracks_def)
  show ?thesis
  proof (cases "state ?key")
    case None
    with at assms(2) have "prev ?key = None" "St_TotalChecks (locateState state i) = 0"
      by (simp_all add: locateState_def Let_def)
    then show ?thesis
      by (simp add: Aggregator_step_event updateState_fields wrap64_def)
  next
    case (Some st)
    with at have p: "prev ?key = Some (St_LastUp st)" and c: "1 \<le> St_TotalChecks st"
      "St_TotalChecks st \<le> n"
      by simp_all
    from Some have l: "locateState state i = st"
      by (simp add: locateState_def Let_def)
    from c assms(4) have "wrap64 (St_TotalChecks st + 1) = St_TotalChecks st + 1"
      by (intro wrap64_id) auto
    with p c l show ?thesis
      by (simp add: Aggregator_step_event updateState_fields)
  qed
qed

lemma Aggregator_loop_transitions:
  assumes "tracks state prev n" and "\<forall>i \<in> set inputs. In_loaded i = None \<and> In_send i = Sent"
    and "0 \<le> n" and "n + int (length inputs) < 2 ^ 63"
  shows "snd (Aggregator_loop state eventsCh inputs)
           = eventsCh @ transitions prev (map In_res inputs)"
  using assms
proof (induction inputs arbitrary: state prev n eventsCh)
  case Nil
  then show ?case by simp
next
  case (Cons i rest)
  from Cons.prems have i: "In_loaded i = None" "In_send i = Sent" and n: "n + 1 < 2 ^ 63"
    by auto
  let ?ch = "case snd (Aggregator_step state i) of
               None \<Rightarrow> eventsCh
             | Some event \<Rightarrow> send_event (In_send i) eventsCh event"
  have "snd (Aggregator_loop (fst (Aggregator_step state i)) ?ch rest)
        = ?ch @ transitions (prev(Res_TargetName (In_res i) \<mapsto> Res_Up (In_res i))) (map In_res rest)"
  proof (rule Cons.IH)
    show "tracks (fst (Aggregator_step state i))
            (prev(Res_TargetName (In_res i) \<mapsto> Res_Up (In_res i))) (n + 1)"
      using Cons.prems(1) i(1) Cons.prems(3) n by (rule tracks_step)
    show "\<forall>i \<in> set rest. In_loaded i = None \<and> In_send i = Sent"
      using Cons.prems(2) by simp
    show "0 \<le> n + 1" using Cons.prems(3) by simp
    show "n + 1 + int (length rest) < 2 ^ 63" using Cons.prems(4) by simp
  qed
  moreover have "?ch = eventsCh @
      (case prev (Res_TargetName (In_res i)) of
              None \<Rightarrow> []
            | Some up \<Rightarrow>
                if up \<noteq> Res_Up (In_res i) then
                  [\<lparr>Ev_TargetName = Res_TargetName (In_res i), Ev_URL = Res_URL (In_res i),
                    Ev_From = up, Ev_To = Res_Up (In_res i), Ev_At = Res_At (In_res i),
                    Ev_Reason = Res_Error (In_res i),
                    Ev_StatusCode = Res_StatusCode (In_res i)\<rparr>]
                else [])"
    unfolding event_step [OF Cons.prems(1) i(1) Cons.prems(3) n]
    by (simp add: send_event_def i(2) split: option.splits)
  ultimately show ?case
    by (simp only: Aggregator_loop_Cons list.map transitions.simps append_assoc)
qed

text \<open>
  C1.  An iteration of the aggregator emits an event exactly when the state counts more
  than one check after the update and the result's up-value differs from the previous
  one; the event goes from the previous to the new up-value.  For a target without a
  state no event is emitted, whatever the result, when no history is loaded, and also
  when the loaded state has the result's own up-value (as the state rebuilt from the
  row of this very result has).  Over a run that starts with the empty state map,
  without history and with a live context (fewer than \<open>2^63\<close> results), the events on
  the event queue are the transitions of the results: one for each result whose
  up-value differs from the one before it for the same target, none for a first result.
\<close>

theorem event_iff_transition:
  "(snd (Aggregator_step state i) \<noteq> None
      \<longleftrightarrow> 1 < St_TotalChecks (updateState (In_clock i) (locateState state i) (In_res i))
          \<and> St_LastUp (locateState state i) \<noteq> Res_Up (In_res i))
   \<and> (\<forall>ev. snd (Aggregator_step state i) = Some ev
         \<longrightarrow> Ev_From ev = St_LastUp (locateState state i) \<and> Ev_To ev = Res_Up (In_res i)
             \<and> Ev_From ev \<noteq> Ev_To ev
             \<and> Ev_TargetName ev = Res_TargetName (In_res i))
   \<and> (state (Res_TargetName (In_res i)) = None \<and> In_loaded i = None
        \<longrightarrow> snd (Aggregator_step state i) = None)
   \<and> (state (Res_TargetName (In_res i)) = None
        \<and> (\<exists>loaded. In_loaded i = Some loaded \<and> St_LastUp loaded = Res_Up (In_res i))
        \<longrightarrow> snd (Aggregator_step state i) = None)
   \<and> ((\<forall>j \<in> set inputs. In_loaded j = None \<and> In_send j = Sent) \<and> int (length inputs) < 2 ^ 63
        \<longrightarrow> snd (Aggregator inputs) = transitions Map.empty (map In_res inputs))"
proof (intro conjI impI allI)
  show "state (Res_TargetName (In_res i)) = None \<and> In_loaded i = None
        \<Longrightarrow> snd (Aggregator_step state i) = None"
    by (simp add: Aggregator_step_event updateState_fields locateState_def Let_def wrap64_def)
next
  show "state (Res_TargetName (In_res i)) = None
        \<and> (\<exists>loaded. In_loaded i = Some loaded \<and> St_LastUp loaded = Res_Up (In_res i))
        \<Longrightarrow> snd (Aggregator_step state i) = None"
    by (auto simp: Aggregator_step_event locateState_def Let_def)
next
  assume a: "(\<forall>j \<in> set inputs. In_loaded j = None \<and> In_send j = Sent)
             \<and> int (length inputs) < 2 ^ 63"
  have "tracks Map.empty Map.empty 0"
    by (simp add: tracks_def)
  then have "snd (Aggregator_loop Map.empty [] inputs)
             = [] @ transitions Map.empty (map In_res inputs)"
    using a by (intro Aggregator_loop_transitions [where n = 0]) auto
  then show "snd (Aggregator inputs) = transitions Map.empty (map In_res inputs)"
    by (simp add: Aggregator_def)
qed (auto simp: Aggregator_step_event split: if_splits)

lemma result_up:
  "runJob (probe_200 []) (job_of target_Alpha) =
     \<lparr>Res_TargetName = ''Alpha'', Res_URL = ''http://alpha.test/health'', Res_At = 1000,
      Res_Latency = 20, Res_Up = True, Res_StatusCode = 200, Res_Error = [],
      Res_Validation = [], Res_Attempt = 1\<rparr>"
  by (simp add: runJob_def CheckOnce_def job_of_def probe_200_def target_Alpha_def TrimSpace_Nil)

lemma result_timeout:
  "runJob probe_deadline (job_of target_Alpha) =
     \<lparr>Res_TargetName = ''Alpha'', Res_URL = ''http://alpha.test/health'', Res_At = 2000,
      Res_Latency = 5000000000, Res_Up = False, Res_StatusCode = 0, Res_Error = ''timeout'',
      Res_Validation = [], Res_Attempt = 1\<rparr>"
  using deadline_wrapped [of "''Get''" "''http://alpha.test/health''"]
  by (simp add: runJob_def CheckOnce_def job_of_def probe_deadline_def target_Alpha_def
        classifyHTTPError_def del: Error.simps)

theorem event_iff_transition_witness:
  "snd (Aggregator [input_of (runJob (probe_200 []) (job_of target_Alpha)),
                    input_of (runJob probe_deadline (job_of target_Alpha)),
                    input_of (runJob probe_deadline (job_of target_Alpha))])
   = [event_down]"
proof -
  let ?ins = "[input_of (runJob (probe_200 []) (job_of target_Alpha)),
               input_of (runJob probe_deadline (job_of target_Alpha)),
               input_of (runJob probe_deadline (job_of target_Alpha))]"
  have h: "(\<forall>j \<in> set ?ins. In_loaded j = None \<and> In_send j = Sent)
           \<and> int (length ?ins) < 2 ^ 63"
    by (simp add: input_of_def)
  have "transitions Map.empty (map In_res ?ins) = [event_down]"
    by (simp add: input_of_def result_up result_timeout event_down_def)
  with event_iff_transition [of _ _ ?ins] h show ?thesis
    by metis
qed

text \<open>
  C2.  The run of scenario B: target Alpha is up at its first check and times out at
  its second.  The state then has \<open>LastUp = False\<close>, two checks, one failure and a
  fail streak of 1, and its success streak is still 1: \<open>updateState\<close> does not reset
  \<open>ConsecutiveSuccess\<close> on a failure, so both streak counters are nonzero.
\<close>

theorem success_streak_not_reset:
  "fst (Aggregator [input_of (runJob (probe_200 []) (job_of target_Alpha)),
                    input_of (runJob probe_deadline (job_of target_Alpha))]) ''Alpha''
   = Some \<lparr>St_Name = ''Alpha'', St_URL = ''http://alpha.test/health'', St_LastUp = False,
            St_LastChecked = 5000002000, St_LastLatency = 5000000000, St_LastStatusCode = 0,
            St_LastError = ''timeout'', St_ConsecutiveSuccess = 1, St_ConsecutiveFail = 1,
            St_TotalChecks = 2, St_TotalFails = 1, St_History = []\<rparr>"
  by (simp add: Aggregator_def Aggregator_loop_Cons Aggregator_loop_Nil
        Aggregator_step_state result_up result_timeout input_of_def locateState_def
        updateState_def wrap64_def del: Aggregator_loop.simps)

section \<open>The incident collector: one active incident for a target\<close>

lemma distinct_keys_at_most_one:
  "distinct (map f xs) \<Longrightarrow> length (filter (\<lambda>x. f x = k) xs) \<le> 1"
proof (induction xs)
  case Nil
  then show ?case by simp
next
  case (Cons x xs)
  show ?case
  proof (cases "f x = k")
    case True
    with Cons.prems have "k \<notin> f ` set xs" by auto
    then have "filter (\<lambda>x. f x = k) xs = []"
      by (auto simp: filter_empty_conv)
    with True show ?thesis by simp
  next
    case False
    with Cons show ?thesis by simp
  qed
qed

lemma active_at_most_one:
  assumes "uq_incidents_one_active tbl"
  shows "length (filter (active_for target probe) tbl) \<le> 1"
proof -
  have "filter (active_for target probe) tbl =
        filter (\<lambda>r. (Inc_target_name r, Inc_probe r) = (target, probe))
               (filter (\<lambda>r. Inc_ended_at r = None) tbl)"
    by (auto simp: active_for_def intro: filter_cong)
  with assms distinct_keys_at_most_one show ?thesis
    unfolding uq_incidents_one_active_def by metis
qed

lemma uq_append:
  assumes "uq_incidents_one_active tbl"
    and "\<not> (\<exists>r \<in> set tbl. active_for (Inc_target_name row) (Inc_probe row) r)"
  shows "uq_incidents_one_active (tbl @ [row])"
  using assms by (auto simp: uq_incidents_one_active_def active_for_def)

lemma open_after_close:
  "map (\<lambda>r. (Inc_target_name r, Inc_probe r))
     (filter (\<lambda>r. Inc_ended_at r = None)
        (map (\<lambda>r. if P r then r\<lparr>Inc_ended_at := Some at, Inc_end_status := s,
                                 Inc_end_status_code := c, Inc_end_error := e\<rparr> else r) tbl))
   = map (\<lambda>r. (Inc_target_name r, Inc_probe r))
       (filter (\<lambda>r. \<not> P r) (filter (\<lambda>r. Inc_ended_at r = None) tbl))"
  by (induction tbl) auto

lemma uq_close:
  assumes "uq_incidents_one_active tbl"
  shows "uq_incidents_one_active
           (map (\<lambda>r. if P r then r\<lparr>Inc_ended_at := Some at, Inc_end_status := s,
                                    Inc_end_status_code := c, Inc_end_error := e\<rparr> else r) tbl)"
  using assms unfolding uq_incidents_one_active_def open_after_close
  by (rule distinct_map_filter)

lemma persistIncident_down_open:
  assumes "\<not> Ev_To ev" and "\<exists>r \<in> set tbl. active_for (Ev_TargetName ev) ''primary'' r"
  shows "persistIncident None tbl ev = (tbl, None)"
  using assms by (simp add: persistIncident_def)

lemma persistIncident_down_new:
  assumes "uq_incidents_one_active tbl" and "\<not> Ev_To ev"
    and "\<not> (\<exists>r \<in> set tbl. active_for (Ev_TargetName ev) ''primary'' r)"
  shows "persistIncident None tbl ev =
           (tbl @ [\<lparr>Inc_target_name = Ev_TargetName ev, Inc_probe = ''primary'',
                     Inc_started_at = Ev_At ev, Inc_ended_at = None,
                     Inc_start_status = ''DOWN'',
                     Inc_start_status_code = NULLIF (Ev_StatusCode ev) 0,
                     Inc_start_error = NULLIF (Ev_Reason ev) [],
                     Inc_end_status = None, Inc_end_status_code = None,
                     Inc_end_error = None\<rparr>], None)"
proof -
  let ?row = "\<lparr>Inc_target_name = Ev_TargetName ev, Inc_probe = ''primary'',
                     Inc_started_at = Ev_At ev, Inc_ended_at = None,
                     Inc_start_status = statusFromEvent ev,
                     Inc_start_status_code = NULLIF (Ev_StatusCode ev) 0,
                     Inc_start_error = NULLIF (Ev_Reason ev) [],
                     Inc_end_status = None, Inc_end_status_code = None,
                     Inc_end_error = None\<rparr>"
  have "uq_incidents_one_active (tbl @ [?row])"
    using assms(1,3) by (intro uq_append) simp_all
  then have "insert_incident tbl ?row = Inr (tbl @ [?row])"
    by (simp add: insert_incident_def)
  with assms(2,3) show ?thesis
    by (simp add: persistIncident_def statusFromEvent_def)
qed

lemma persistIncident_up:
  assumes "Ev_To ev"
  shows "persistIncident None tbl ev =
           (map (\<lambda>r. if active_for (Ev_TargetName ev) ''primary'' r then
                         r\<lparr>Inc_ended_at := Some (Ev_At ev),
                           Inc_end_status := Some ''UP'',
                           Inc_end_status_code := NULLIF (Ev_StatusCode ev) 0,
                           Inc_end_error := NULLIF (Ev_Reason ev) []\<rparr>
                       else r) tbl, None)"
  using assms by (simp add: persistIncident_def)

lemma persistIncident_uq:
  assumes "uq_incidents_one_active tbl"
  shows "uq_incidents_one_active (fst (persistIncident fail tbl ev))"
proof (cases fail)
  case (Some err)
  with assms show ?thesis by (simp add: persistIncident_def)
next
  case None
  show ?thesis
  proof (cases "Ev_To ev")
    case True
    with None assms uq_close show ?thesis
      by (simp add: persistIncident_up)
  next
    case False
    show ?thesis
    proof (cases "\<exists>r \<in> set tbl. active_for (Ev_TargetName ev) ''primary'' r")
      case True
      with False None assms show ?thesis
        by (simp add: persistIncident_down_open)
    next
      case no: False
      from persistIncident_down_new [OF assms False no] None
      have "fst (persistIncident fail tbl ev) = tbl @
              [\<lparr>Inc_target_name = Ev_TargetName ev, Inc_probe = ''primary'',
                Inc_started_at = Ev_At ev, Inc_ended_at = None,
                Inc_start_status = ''DOWN'',
                Inc_start_status_code = NULLIF (Ev_StatusCode ev) 0,
                Inc_start_error = NULLIF (Ev_Reason ev) [],
                Inc_end_status = None, Inc_end_status_code = None,
                Inc_end_error = None\<rparr>]"
        by simp
      moreover have "uq_incidents_one_active (tbl @
              [\<lparr>Inc_target_name = Ev_TargetName ev, Inc_probe = ''primary'',
                Inc_started_at = Ev_At ev, Inc_ended_at = None,
                Inc_start_status = ''DOWN'',
                Inc_start_status_code = NULLIF (Ev_StatusCode ev) 0,
                Inc_start_error = NULLIF (Ev_Reason ev) [],
                Inc_end_status = None, Inc_end_status_code = None,
                Inc_end_error = None\<rparr>])"
        using assms no by (intro uq_append) simp_all
      ultimately show ?thesis by simp
    qed
  qed
qed

lemma IncidentCollector_uq:
  assumes "uq_incidents_one_active tbl"
  shows "\<exists>tbl'. fst (IncidentCollector (Some tbl) evs) = Some tbl' \<and> uq_incidents_one_active tbl'"
  using assms
proof (induction evs arbitrary: tbl)
  case Nil
  then show ?case by simp
next
  case (Cons e evs)
  obtain ev fail where e: "e = (ev, fail)" by (cases e)
  obtain tbl1 err where p: "persistIncident fail tbl ev = (tbl1, err)"
    by (cases "persistIncident fail tbl ev")
  with persistIncident_uq [OF Cons.prems, of fail ev] have "uq_incidents_one_active tbl1"
    by simp
  from Cons.IH [OF this] e p show ?case
    by (cases err) (auto split: prod.splits)
qed

text \<open>
  C4.  In a table that satisfies the unique index, whatever event arrives and whatever
  the database answers, the table after \<open>persistIncident\<close> satisfies it again, so every
  target and probe has at most one incident that is not ended, also after any sequence
  of events through the collector.  A down event inserts one open incident when none is
  open for the target and changes nothing when one is open; an up event leaves no
  incident of the target open; an up event when none is open leaves the table as it is.
\<close>

theorem one_active_incident:
  assumes "uq_incidents_one_active tbl"
  shows "uq_incidents_one_active (fst (persistIncident fail tbl ev))
       \<and> length (filter (active_for target probe) (fst (persistIncident fail tbl ev))) \<le> 1
       \<and> (\<not> Ev_To ev \<and> (\<exists>r \<in> set tbl. active_for (Ev_TargetName ev) ''primary'' r)
            \<longrightarrow> persistIncident None tbl ev = (tbl, None))
       \<and> (\<not> Ev_To ev \<and> \<not> (\<exists>r \<in> set tbl. active_for (Ev_TargetName ev) ''primary'' r)
            \<longrightarrow> (\<exists>row. persistIncident None tbl ev = (tbl @ [row], None)
                      \<and> active_for (Ev_TargetName ev) ''primary'' row
                      \<and> Inc_started_at row = Ev_At ev))
       \<and> (Ev_To ev
            \<longrightarrow> \<not> (\<exists>r \<in> set (fst (persistIncident None tbl ev)).
                      active_for (Ev_TargetName ev) ''primary'' r)
                \<and> length (fst (persistIncident None tbl ev)) = length tbl)
       \<and> (Ev_To ev \<and> \<not> (\<exists>r \<in> set tbl. active_for (Ev_TargetName ev) ''primary'' r)
            \<longrightarrow> fst (persistIncident fail tbl ev) = tbl)
       \<and> (\<exists>tbl'. fst (IncidentCollector (Some tbl) evs) = Some tbl'
                \<and> uq_incidents_one_active tbl'
                \<and> length (filter (active_for target probe) tbl') \<le> 1)"
proof (intro conjI impI)
  show u: "uq_incidents_one_active (fst (persistIncident fail tbl ev))"
    using assms by (rule persistIncident_uq)
  then show "length (filter (active_for target probe) (fst (persistIncident fail tbl ev))) \<le> 1"
    by (rule active_at_most_one)
  show "\<not> Ev_To ev \<and> (\<exists>r \<in> set tbl. active_for (Ev_TargetName ev) ''primary'' r)
        \<Longrightarrow> persistIncident None tbl ev = (tbl, None)"
    by (simp add: persistIncident_down_open)
  show "\<not> Ev_To ev \<and> \<not> (\<exists>r \<in> set tbl. active_for (Ev_TargetName ev) ''primary'' r)
        \<Longrightarrow> \<exists>row. persistIncident None tbl ev = (tbl @ [row], None)
                      \<and> active_for (Ev_TargetName ev) ''primary'' row
                      \<and> Inc_started_at row = Ev_At ev"
    using persistIncident_down_new [OF assms, of ev] by (simp add: active_for_def)
  show "Ev_To ev \<Longrightarrow> \<not> (\<exists>r \<in> set (fst (persistIncident None tbl ev)).
                      active_for (Ev_TargetName ev) ''primary'' r)"
    by (auto simp: persistIncident_up active_for_def)
  show "Ev_To ev \<Longrightarrow> length (fst (persistIncident None tbl ev)) = length tbl"
    by (simp add: persistIncident_up)
  show "Ev_To ev \<and> \<not> (\<exists>r \<in> set tbl. active_for (Ev_TargetName ev) ''primary'' r)
        \<Longrightarrow> fst (persistIncident fail tbl ev) = tbl"
    by (cases fail) (auto simp: persistIncident_def intro: map_idI)
  from IncidentCollector_uq [OF assms, of evs] active_at_most_one
  show "\<exists>tbl'. fst (IncidentCollector (Some tbl) evs) = Some tbl'
                \<and> uq_incidents_one_active tbl'
                \<and> length (filter (active_for target probe) tbl') \<le> 1"
    by blast
qed

theorem one_active_incident_witness:
  "uq_incidents_one_active (fst (persistIncident None [incident_down] event_down))
   \<and> persistIncident None [incident_down] event_down = ([incident_down], None)
   \<and> length (filter (active_for ''Alpha'' ''primary'')
               (fst (persistIncident None [incident_down] event_up))) \<le> 1
   \<and> \<not> (\<exists>r \<in> set (fst (persistIncident None [incident_down] event_up)).
           active_for ''Alpha'' ''primary'' r)"
proof -
  have h: "uq_incidents_one_active [incident_down]"
    by (simp add: uq_incidents_one_active_def)
  have d: "\<not> Ev_To event_down" "Ev_TargetName event_down = ''Alpha''"
    "\<exists>r \<in> set [incident_down]. active_for ''Alpha'' ''primary'' r"
    by (simp_all add: event_down_def incident_down_def active_for_def)
  have u: "Ev_To event_up" "Ev_TargetName event_up = ''Alpha''"
    by (simp_all add: event_up_def)
  from one_active_incident [OF h, of None event_down] d h
  have "uq_incidents_one_active (fst (persistIncident None [incident_down] event_down))"
    and "persistIncident None [incident_down] event_down = ([incident_down], None)"
    by simp_all
  moreover from one_active_incident [OF h, of None event_up "''Alpha''" "''primary''"] u h
  have "length (filter (active_for ''Alpha'' ''primary'')
               (fst (persistIncident None [incident_down] event_up))) \<le> 1"
    and "\<not> (\<exists>r \<in> set (fst (persistIncident None [incident_down] event_up)).
           active_for ''Alpha'' ''primary'' r)"
    by simp_all
  ultimately show ?thesis by blast
qed

section \<open>Scenario B: a timeout after a success\<close>

text \<open>
  C5.  The run of scenario B: target Alpha answers 200 at its first check, and at its
  second check \<open>client.Do\<close> fails with the \<open>*url.Error\<close> that wraps
  \<open>context.DeadlineExceeded\<close>.  The aggregator, started without state and history and
  with a live context, emits exactly one event over the two checks, from up to down,
  with reason \<open>"timeout"\<close> and status code 0.  For this event the collector opens one
  incident in the empty table, with a null \<open>start_status_code\<close> and the
  \<open>start_error\<close> \<open>"timeout"\<close>, and its \<open>start_status\<close> is \<open>"DOWN"\<close>, not
  \<open>"TIMEOUT"\<close>: \<open>persistIncident\<close> stores what \<open>statusFromEvent\<close> returns, which
  is \<open>"TIMEOUT"\<close> for no event.
\<close>

theorem timeout_incident_status:
  "runJob probe_deadline (job_of target_Alpha) =
     \<lparr>Res_TargetName = ''Alpha'', Res_URL = ''http://alpha.test/health'', Res_At = 2000,
      Res_Latency = 5000000000, Res_Up = False, Res_StatusCode = 0, Res_Error = ''timeout'',
      Res_Validation = [], Res_Attempt = 1\<rparr>
   \<and> snd (Aggregator [input_of (runJob (probe_200 []) (job_of target_Alpha)),
                      input_of (runJob probe_deadline (job_of target_Alpha))])
       = [\<lparr>Ev_TargetName = ''Alpha'', Ev_URL = ''http://alpha.test/health'', Ev_From = True,
           Ev_To = False, Ev_At = 2000, Ev_Reason = ''timeout'', Ev_StatusCode = 0\<rparr>]
   \<and> IncidentCollector (Some [])
        [(\<lparr>Ev_TargetName = ''Alpha'', Ev_URL = ''http://alpha.test/health'', Ev_From = True,
           Ev_To = False, Ev_At = 2000, Ev_Reason = ''timeout'', Ev_StatusCode = 0\<rparr>, None)]
       = (Some [\<lparr>Inc_target_name = ''Alpha'', Inc_probe = ''primary'', Inc_started_at = 2000,
                  Inc_ended_at = None, Inc_start_status = ''DOWN'',
                  Inc_start_status_code = None, Inc_start_error = Some ''timeout'',
                  Inc_end_status = None, Inc_end_status_code = None,
                  Inc_end_error = None\<rparr>], [])
   \<and> statusFromEvent ev \<noteq> ''TIMEOUT''"
proof (intro conjI)
  show "runJob probe_deadline (job_of target_Alpha) =
     \<lparr>Res_TargetName = ''Alpha'', Res_URL = ''http://alpha.test/health'', Res_At = 2000,
      Res_Latency = 5000000000, Res_Up = False, Res_StatusCode = 0, Res_Error = ''timeout'',
      Res_Validation = [], Res_Attempt = 1\<rparr>"
    by (rule result_timeout)
  show "snd (Aggregator [input_of (runJob (probe_200 []) (job_of target_Alpha)),
                      input_of (runJob probe_deadline (job_of target_Alpha))])
       = [\<lparr>Ev_TargetName = ''Alpha'', Ev_URL = ''http://alpha.test/health'', Ev_From = True,
           Ev_To = False, Ev_At = 2000, Ev_Reason = ''timeout'', Ev_StatusCode = 0\<rparr>]"
    by (simp add: Aggregator_def Aggregator_loop_Cons Aggregator_loop_Nil
          Aggregator_step_event Aggregator_step_state send_event_def result_up
          result_timeout input_of_def locateState_def updateState_def wrap64_def
          del: Aggregator_loop.simps)
  show "IncidentCollector (Some [])
        [(\<lparr>Ev_TargetName = ''Alpha'', Ev_URL = ''http://alpha.test/health'', Ev_From = True,
           Ev_To = False, Ev_At = 2000, Ev_Reason = ''timeout'', Ev_StatusCode = 0\<rparr>, None)]
       = (Some [\<lparr>Inc_target_name = ''Alpha'', Inc_probe = ''primary'', Inc_started_at = 2000,
                  Inc_ended_at = None, Inc_start_status = ''DOWN'',
                  Inc_start_status_code = None, Inc_start_error = Some ''timeout'',
                  Inc_end_status = None, Inc_end_status_code = None,
                  Inc_end_error = None\<rparr>], [])"
    by (simp add: persistIncident_def insert_incident_def uq_incidents_one_active_def
          statusFromEvent_def NULLIF_def)
  show "statusFromEvent ev \<noteq> ''TIMEOUT''"
    by (simp add: statusFromEvent_def)
qed

section \<open>The scheduler: a full job queue\<close>

lemma go_select_none:
  "go_select pick [False, ctx_done] True = (if ctx_done then Case 1 else DefaultCase)"
  by (simp add: go_select_def upt_rec)

lemma go_select_send:
  "go_select pick [True, False] True = Case 0"
  "go_select pick [True, True] True = Case 0 \<or> go_select pick [True, True] True = Case 1"
proof -
  show "go_select pick [True, False] True = Case 0"
    by (simp add: go_select_def upt_rec)
  have "pick mod Suc (Suc 0) = 0 \<or> pick mod Suc (Suc 0) = Suc 0" by arith
  then show "go_select pick [True, True] True = Case 0
             \<or> go_select pick [True, True] True = Case 1"
    by (auto simp: go_select_def upt_rec)
qed

lemma full_no_receiver:
  assumes "chan_inv ch" and "0 < Ch_cap ch" and "length (Ch_buf ch) = Ch_cap ch"
  shows "Ch_recvq ch = 0"
  using assms by (auto simp: chan_inv_def)

lemma enqueueJob_not_ready:
  assumes "Ch_recvq jobsCh = 0" and "Ch_cap jobsCh \<le> length (Ch_buf jobsCh)"
  shows "enqueueJob ctx_done pick clock jobsCh target =
           Some (jobsCh, None,
                 if ctx_done then []
                 else [''[WARN] jobsCh full; dropping job for target='' @ Name target])"
proof -
  from assms have "\<not> send_ready jobsCh"
    by (simp add: send_ready_def)
  then show ?thesis
    by (simp add: enqueueJob_def go_select_none)
qed

lemma chansend_inv:
  assumes "chan_inv ch" and "send_ready ch"
  shows "chan_inv (fst (chansend ch x))" and "Ch_cap (fst (chansend ch x)) = Ch_cap ch"
  using assms by (auto simp: chan_inv_def send_ready_def chansend_def)

lemma enqueueJob_returns:
  "\<exists>jobsCh' taken logs. enqueueJob ctx_done pick clock jobsCh target = Some (jobsCh', taken, logs)
      \<and> Ch_cap jobsCh' = Ch_cap jobsCh
      \<and> (chan_inv jobsCh \<longrightarrow> chan_inv jobsCh')"
proof (cases "send_ready jobsCh")
  case False
  then show ?thesis
    by (simp add: enqueueJob_def go_select_none)
next
  case True
  obtain ch' taken where s: "chansend jobsCh
      \<lparr>Job_Target = target, Job_ScheduledAt = clock, Job_Attempt = 1\<rparr> = (ch', taken)"
    by (cases "chansend jobsCh \<lparr>Job_Target = target, Job_ScheduledAt = clock, Job_Attempt = 1\<rparr>")
  from chansend_inv [OF _ True, of "\<lparr>Job_Target = target, Job_ScheduledAt = clock, Job_Attempt = 1\<rparr>"]
    chansend_inv(2) [of jobsCh "\<lparr>Job_Target = target, Job_ScheduledAt = clock, Job_Attempt = 1\<rparr>"] s
  have c: "Ch_cap ch' = Ch_cap jobsCh" "chan_inv jobsCh \<longrightarrow> chan_inv ch'"
    by (auto simp: chansend_def split: if_splits)
  show ?thesis
  proof (cases ctx_done)
    case False
    with True s c show ?thesis
      by (simp add: enqueueJob_def go_select_send)
  next
    case d: True
    from go_select_send(2) [of pick] True d s c show ?thesis
      by (auto simp: enqueueJob_def)
  qed
qed

text \<open>
  C7, as the code has it.  The job queue is full: a channel of positive capacity whose
  buffer holds as many jobs as the capacity, so that no worker waits on it.  Then
  \<open>enqueueJob\<close> returns without blocking, whatever the runtime picks, and the channel
  is the channel it was: the job is dropped, no worker takes it and nothing is tried
  again.  With a live context exactly the warning is logged; with a context that is
  done the \<open>select\<close> takes \<open>ctx.Done()\<close> and nothing is logged.  The same holds for
  every channel on which no send can proceed (an unbuffered one on which no worker
  waits); when a worker waits on the channel and the context is live, the worker takes
  the job and nothing is logged.  No call blocks, the capacity stays, and a channel that
  satisfies \<open>chan_inv\<close> satisfies it afterwards: the buffer never exceeds the capacity.
\<close>

theorem enqueue_full_queue:
  assumes "chan_inv jobsCh" and "0 < Ch_cap jobsCh" and "length (Ch_buf jobsCh) = Ch_cap jobsCh"
  shows "enqueueJob ctx_done pick clock jobsCh target =
           Some (jobsCh, None,
                 if ctx_done then []
                 else [''[WARN] jobsCh full; dropping job for target='' @ Name target])
       \<and> (Ch_recvq other = 0 \<and> Ch_cap other \<le> length (Ch_buf other)
            \<longrightarrow> enqueueJob ctx_done pick clock other target =
                  Some (other, None,
                        if ctx_done then []
                        else [''[WARN] jobsCh full; dropping job for target='' @ Name target]))
       \<and> (0 < Ch_recvq other
            \<longrightarrow> enqueueJob False pick clock other target =
                  Some (other\<lparr>Ch_recvq := Ch_recvq other - 1\<rparr>,
                        Some \<lparr>Job_Target = target, Job_ScheduledAt = clock, Job_Attempt = 1\<rparr>,
                        []))
       \<and> (\<exists>jobsCh' taken logs.
             enqueueJob ctx_done pick clock other target = Some (jobsCh', taken, logs)
             \<and> Ch_cap jobsCh' = Ch_cap other
             \<and> (chan_inv other
                   \<longrightarrow> chan_inv jobsCh' \<and> length (Ch_buf jobsCh') \<le> Ch_cap jobsCh'))"
proof (intro conjI impI)
  from full_no_receiver [OF assms] assms(3)
  show "enqueueJob ctx_done pick clock jobsCh target =
           Some (jobsCh, None,
                 if ctx_done then []
                 else [''[WARN] jobsCh full; dropping job for target='' @ Name target])"
    by (intro enqueueJob_not_ready) simp_all
  show "Ch_recvq other = 0 \<and> Ch_cap other \<le> length (Ch_buf other)
        \<Longrightarrow> enqueueJob ctx_done pick clock other target =
                  Some (other, None,
                        if ctx_done then []
                        else [''[WARN] jobsCh full; dropping job for target='' @ Name target])"
    by (intro enqueueJob_not_ready) simp_all
  show "0 < Ch_recvq other
        \<Longrightarrow> enqueueJob False pick clock other target =
                  Some (other\<lparr>Ch_recvq := Ch_recvq other - 1\<rparr>,
                        Some \<lparr>Job_Target = target, Job_ScheduledAt = clock, Job_Attempt = 1\<rparr>,
                        [])"
    by (simp add: enqueueJob_def send_ready_def go_select_send chansend_def)
  from enqueueJob_returns [of ctx_done pick clock other target]
  show "\<exists>jobsCh' taken logs.
             enqueueJob ctx_done pick clock other target = Some (jobsCh', taken, logs)
             \<and> Ch_cap jobsCh' = Ch_cap other
             \<and> (chan_inv other
                   \<longrightarrow> chan_inv jobsCh' \<and> length (Ch_buf jobsCh') \<le> Ch_cap jobsCh')"
    by (auto simp: chan_inv_def)
qed

theorem enqueue_full_queue_witness:
  "enqueueJob False 7 5000 \<lparr>Ch_buf = [job_of target_OK], Ch_cap = 1, Ch_recvq = 0\<rparr> target_Alpha =
     Some (\<lparr>Ch_buf = [job_of target_OK], Ch_cap = 1, Ch_recvq = 0\<rparr>, None,
           [''[WARN] jobsCh full; dropping job for target=Alpha''])
   \<and> enqueueJob False 7 5000 \<lparr>Ch_buf = [], Ch_cap = 0, Ch_recvq = 1\<rparr> target_Alpha =
     Some (\<lparr>Ch_buf = [], Ch_cap = 0, Ch_recvq = 0\<rparr>,
           Some \<lparr>Job_Target = target_Alpha, Job_ScheduledAt = 5000, Job_Attempt = 1\<rparr>, [])"
proof -
  let ?full = "\<lparr>Ch_buf = [job_of target_OK], Ch_cap = 1, Ch_recvq = 0\<rparr>"
  let ?waiting = "\<lparr>Ch_buf = [] :: CheckJob list, Ch_cap = 0, Ch_recvq = 1\<rparr>"
  have h1: "chan_inv ?full"
    by (simp add: chan_inv_def)
  have h2: "0 < Ch_cap ?full" and h3: "length (Ch_buf ?full) = Ch_cap ?full"
    by simp_all
  have n: "Name target_Alpha = ''Alpha''"
    by (simp add: target_Alpha_def)
  note th = enqueue_full_queue [OF h1 h2 h3, of False 7 5000 target_Alpha ?waiting]
  from th have "enqueueJob False 7 5000 ?full target_Alpha =
     Some (?full, None, [''[WARN] jobsCh full; dropping job for target=Alpha''])"
    by (simp add: n)
  moreover from th have "enqueueJob False 7 5000 ?waiting target_Alpha =
     Some (\<lparr>Ch_buf = [], Ch_cap = 0, Ch_recvq = 0\<rparr>,
           Some \<lparr>Job_Target = target_Alpha, Job_ScheduledAt = 5000, Job_Attempt = 1\<rparr>, [])"
    by simp
  ultimately show ?thesis ..
qed

text \<open>A full queue and a context that is done: the job is dropped and no warning is logged.\<close>

theorem enqueue_full_queue_counterexample:
  "chan_inv \<lparr>Ch_buf = [job_of target_OK], Ch_cap = 1, Ch_recvq = 0\<rparr>
   \<and> enqueueJob True 7 5000 \<lparr>Ch_buf = [job_of target_OK], Ch_cap = 1, Ch_recvq = 0\<rparr> target_Alpha =
       Some (\<lparr>Ch_buf = [job_of target_OK], Ch_cap = 1, Ch_recvq = 0\<rparr>, None, [])"
  by (simp add: enqueueJob_def send_ready_def go_select_none chan_inv_def)

section \<open>The scheduler: the jittered interval\<close>

lemma bitlen_pos: "0 < n \<Longrightarrow> 0 < bitlen n"
  by (subst bitlen.simps) simp

lemma bitlen_bounds: "0 < n \<Longrightarrow> 2 ^ (bitlen n - 1) \<le> n \<and> n < 2 ^ bitlen n"
proof (induction n rule: bitlen.induct)
  case (1 n)
  show ?case
  proof (cases "n = 1")
    case True
    have "bitlen 1 = 1"
      by (simp add: bitlen.simps [of 1] bitlen.simps [of 0])
    with True show ?thesis by simp
  next
    case False
    with "1.prems" have h: "0 < n div 2" by simp
    with "1.IH" "1.prems" have ih: "2 ^ (bitlen (n div 2) - 1) \<le> n div 2"
      "n div 2 < 2 ^ bitlen (n div 2)"
      by simp_all
    from "1.prems" have b: "bitlen n = Suc (bitlen (n div 2))"
      by (subst bitlen.simps) simp
    from bitlen_pos [OF h] obtain k where k: "bitlen (n div 2) = Suc k"
      by (cases "bitlen (n div 2)") simp_all
    from ih k have "2 * 2 ^ k \<le> n" "n < 2 * (2 * 2 ^ k)"
      by simp_all
    with b k show ?thesis by simp
  qed
qed

lemma round53_small: "0 \<le> n \<Longrightarrow> n < 2 ^ 53 \<Longrightarrow> round53 n = n"
proof -
  assume n: "0 \<le> n" "n < 2 ^ 53"
  have "bitlen n \<le> 53"
  proof (cases "n = 0")
    case True
    then show ?thesis by (simp add: bitlen.simps [of 0])
  next
    case False
    with n have "0 < n" by simp
    from bitlen_bounds [OF this] n have "(2::int) ^ (bitlen n - 1) < 2 ^ 53"
      by linarith
    with power_less_imp_less_exp [of "2::int" "bitlen n - 1" 53] have "bitlen n - 1 < 53"
      by simp
    then show ?thesis by simp
  qed
  then show ?thesis
    by (simp add: round53_def)
qed

lemma round53_error:
  assumes "0 < n" and "bitlen n - 53 \<noteq> 0"
  shows "0 \<le> round53 n" and "round53 n \<le> n + 2 ^ (bitlen n - 54)"
    and "2 ^ 53 * 2 ^ (bitlen n - 54) \<le> n"
proof -
  define s where "s = bitlen n - 53"
  define h :: int where "h = 2 ^ (s - 1)"
  define q where "q = n div 2 ^ s"
  define r where "r = n mod 2 ^ s"
  from assms(2) have s: "0 < s" "bitlen n - 1 = 52 + s" "s - 1 = bitlen n - 54"
    by (simp_all add: s_def)
  then have p: "(2::int) ^ s = 2 * h"
    by (cases s) (simp_all add: h_def)
  have hpos: "0 < h" by (simp add: h_def)
  from bitlen_bounds [OF assms(1)] s have "(2::int) ^ (52 + s) \<le> n"
    by simp
  moreover have "(2::int) ^ (52 + s) = 2 ^ 53 * h"
    using p by (simp add: power_add)
  ultimately have big: "2 ^ 53 * h \<le> n" by simp
  have "q * 2 ^ s + r = n"
    unfolding q_def r_def by (rule div_mult_mod_eq)
  moreover have "0 \<le> r" and "r < 2 ^ s"
    by (simp_all add: r_def)
  ultimately have n: "n = q * (2 * h) + r" and r: "0 \<le> r" "r < 2 * h"
    by (simp_all only: p)
  from assms(1) hpos have q: "0 \<le> q"
    by (simp add: q_def p pos_imp_zdiv_nonneg_iff)
  have "round53 n = (if h < r \<or> (r = h \<and> odd q) then q + 1 else q) * 2 ^ s"
    using assms(2) by (simp add: round53_def Let_def s_def h_def q_def r_def)
  then have R: "round53 n = (if h < r \<or> (r = h \<and> odd q) then q + 1 else q) * (2 * h)"
    by (simp only: p)
  have up: "round53 n \<le> n + h"
  proof (cases "h < r \<or> (r = h \<and> odd q)")
    case True
    then have "h \<le> r" by auto
    with True R n show ?thesis
      by (simp add: algebra_simps)
  next
    case no: False
    with R n r show ?thesis
      by (simp add: algebra_simps)
  qed
  show "0 \<le> round53 n"
    using R q hpos by (simp split: if_splits)
  show "round53 n \<le> n + 2 ^ (bitlen n - 54)"
    using up unfolding h_def s(3) .
  show "2 ^ 53 * 2 ^ (bitlen n - 54) \<le> n"
    using big unfolding h_def s(3) .
qed

lemma round53_upper:
  assumes "0 < n"
  shows "0 \<le> round53 n \<and> 2 ^ 53 * round53 n \<le> (2 ^ 53 + 1) * n"
proof (cases "bitlen n - 53 = 0")
  case True
  with assms show ?thesis
    by (simp add: round53_def)
next
  case False
  from round53_error [OF assms False]
  have "0 \<le> round53 n" and "2 ^ 53 * round53 n \<le> 2 ^ 53 * n + n"
    by simp_all
  then show ?thesis
    by (simp add: algebra_simps)
qed

lemma round53_near:
  assumes "0 < n" and "n < 2 ^ 105"
  shows "0 \<le> round53 n \<and> round53 n \<le> n + 2 ^ 51"
proof (cases "bitlen n - 53 = 0")
  case True
  with assms show ?thesis
    by (simp add: round53_def)
next
  case False
  from bitlen_bounds [OF assms(1)] assms(2) have "(2::int) ^ (bitlen n - 1) < 2 ^ 105"
    by linarith
  with power_less_imp_less_exp [of "2::int" "bitlen n - 1" 105] have "bitlen n - 1 < 105"
    by simp
  then have "bitlen n - 54 \<le> 51" by simp
  then have "(2::int) ^ (bitlen n - 54) \<le> 2 ^ 51"
    by (intro power_increasing) simp_all
  with round53_error(1,2) [OF assms(1) False] show ?thesis
    by linarith
qed

lemma maxJitter_of_bound:
  assumes "0 < interval" and "interval < 3 * 2 ^ 51"
  shows "0 \<le> maxJitter_of interval \<and> 5 * maxJitter_of interval \<le> interval"
proof -
  define N where "N = interval * 3602879701896397"
  define R where "R = round53 N"
  define a where "a = interval div 5"
  define b where "b = interval mod 5"
  from assms have f: "round53 interval = interval"
    by (intro round53_small) simp_all
  then have mj: "maxJitter_of interval = R div 2 ^ 54"
    by (simp add: maxJitter_of_def R_def N_def)
  from assms(1) have Npos: "0 < N" by (simp add: N_def)
  from assms(2) have Nlt: "N < 2 ^ 105" by (simp add: N_def)
  from round53_near [OF Npos Nlt] have R0: "0 \<le> R" and R1: "R \<le> N + 2 ^ 51"
    by (simp_all add: R_def)
  have ab: "interval = 5 * a + b" "0 \<le> b" "b \<le> 4"
    unfolding a_def b_def by presburger+
  have "5 * N = (2 ^ 54 + 1) * interval"
    by (simp add: N_def)
  with R1 have "5 * R \<le> (2 ^ 54 + 1) * interval + 5 * 2 ^ 51"
    by simp
  also have "\<dots> = 5 * 2 ^ 54 * a + 2 ^ 54 * b + interval + 5 * 2 ^ 51"
    by (simp add: ab(1) algebra_simps)
  also from ab(3) assms(2) have "\<dots> < 5 * 2 ^ 54 * a + 5 * 2 ^ 54"
    by simp
  finally have "R < 2 ^ 54 * (a + 1)"
    by simp
  then have "R div 2 ^ 54 < a + 1"
    by (simp add: div_less_iff_less_mult mult.commute)
  then have "5 * (R div 2 ^ 54) \<le> 5 * a" by simp
  also have "5 * a \<le> interval"
    using ab by simp
  finally have "5 * maxJitter_of interval \<le> interval"
    by (simp add: mj)
  moreover from R0 have "0 \<le> maxJitter_of interval"
    by (simp add: mj pos_imp_zdiv_nonneg_iff)
  ultimately show ?thesis by simp
qed

lemma round53_zero: "round53 0 = 0"
  by (simp add: round53_def bitlen.simps [of 0])

lemma maxJitter_of_range:
  assumes "0 < interval" and "interval < 2 ^ 63"
  shows "0 \<le> maxJitter_of interval \<and> maxJitter_of interval < 2 ^ 61"
proof -
  define x where "x = round53 interval"
  define R where "R = round53 (x * 3602879701896397)"
  have mj: "maxJitter_of interval = R div 2 ^ 54"
    by (simp add: maxJitter_of_def R_def x_def)
  from round53_upper [OF assms(1)] have x0: "0 \<le> x" and x1: "2 ^ 53 * x \<le> (2 ^ 53 + 1) * interval"
    by (simp_all add: x_def)
  from x1 assms(2) have xb: "x \<le> 2 ^ 63 + 1024"
    by simp
  have "0 \<le> R \<and> R < 2 ^ 115"
  proof (cases "x = 0")
    case True
    then show ?thesis by (simp add: R_def round53_zero)
  next
    case False
    with x0 have "0 < x * 3602879701896397" by simp
    from round53_upper [OF this]
    have "0 \<le> R" and "2 ^ 53 * R \<le> (2 ^ 53 + 1) * (x * 3602879701896397)"
      by (simp_all add: R_def)
    with xb show ?thesis by simp
  qed
  then have R0: "0 \<le> R" and R1: "R < 41538374868278621028243970633760768"
    by simp_all
  from R0 have "0 \<le> R div 18014398509481984"
    by linarith
  moreover from R1 have "R div 18014398509481984 < 2305843009213693952"
    by linarith
  ultimately show ?thesis by (simp add: mj)
qed

lemma jitteredInterval_delay:
  assumes "0 < interval" and "0 \<le> maxJitter_of interval" and "maxJitter_of interval < 2 ^ 61"
  shows "\<exists>r. 0 \<le> r \<and> r \<le> 2 * maxJitter_of interval
           \<and> jitteredInterval v interval =
               Some (if wrap64 (interval + (r - maxJitter_of interval)) < Millisecond
                     then Millisecond
                     else wrap64 (interval + (r - maxJitter_of interval)))"
proof -
  define m where "m = maxJitter_of interval"
  define r where "r = int v mod (2 * m + 1)"
  from assms(2,3) have m: "0 \<le> m" "m < 2 ^ 61" by (simp_all add: m_def)
  then have w1: "wrap64 (m * 2) = 2 * m"
    by (intro wrap64_id [THEN trans]) simp_all
  from m have w2: "wrap64 (2 * m + 1) = 2 * m + 1"
    by (intro wrap64_id) simp_all
  from m have r: "0 \<le> r" "r \<le> 2 * m"
    using pos_mod_bound [of "2 * m + 1" "int v"] by (simp_all add: r_def)
  with m have w3: "wrap64 (r - m) = r - m"
    by (intro wrap64_id) simp_all
  from m assms(1) have "jitteredInterval v interval =
               Some (if wrap64 (interval + (r - m)) < Millisecond
                     then Millisecond
                     else wrap64 (interval + (r - m)))"
    by (simp add: jitteredInterval_def Int63n_def Let_def m_def [symmetric] w1 w2 w3
          r_def [symmetric])
  with r show ?thesis
    unfolding m_def by blast
qed

text \<open>
  C6, as the code has it.  For an interval \<open>I \<le> 0\<close> the delay is exactly 1 ms.  For
  \<open>0 < I < 3 * 2^51\<close> nanoseconds (78 days) and every random draw the delay \<open>d\<close>
  lies in \<open>[max(1 ms, 0.8 I), max(1 ms, 1.2 I)]\<close>, written without fractions as
  \<open>1 ms \<le> d\<close>, \<open>4 I \<le> 5 d\<close> and \<open>5 d \<le> max (5 ms) (6 I)\<close>: the floor of 1 ms lifts
  the upper end too.  From \<open>1.2 I \<ge> 1 ms\<close> on, and below \<open>3 * 2^51\<close>, the delay lies
  in \<open>[max(1 ms, 0.8 I), 1.2 I]\<close>.  For every interval of the type (below \<open>2^63\<close>)
  the function returns and the delay is at least 1 ms.
\<close>

theorem jitter_bounds:
  "(interval \<le> 0 \<longrightarrow> jitteredInterval v interval = Some Millisecond)
   \<and> (0 < interval \<and> interval < 3 * 2 ^ 51
        \<longrightarrow> (\<exists>delay. jitteredInterval v interval = Some delay
                    \<and> Millisecond \<le> delay
                    \<and> 4 * interval \<le> 5 * delay
                    \<and> 5 * delay \<le> max (5 * Millisecond) (6 * interval)))
   \<and> (5 * Millisecond \<le> 6 * interval \<and> interval < 3 * 2 ^ 51
        \<longrightarrow> (\<exists>delay. jitteredInterval v interval = Some delay
                    \<and> Millisecond \<le> delay
                    \<and> 4 * interval \<le> 5 * delay
                    \<and> 5 * delay \<le> 6 * interval))
   \<and> (interval < 2 ^ 63
        \<longrightarrow> (\<exists>delay. jitteredInterval v interval = Some delay \<and> Millisecond \<le> delay))"
proof -
  have main: "\<exists>delay. jitteredInterval v interval = Some delay
                    \<and> Millisecond \<le> delay
                    \<and> 4 * interval \<le> 5 * delay
                    \<and> 5 * delay \<le> max (5 * Millisecond) (6 * interval)"
    if a: "0 < interval \<and> interval < 3 * 2 ^ 51"
  proof -
    from a have b: "0 \<le> maxJitter_of interval" "5 * maxJitter_of interval \<le> interval"
      using maxJitter_of_bound [of interval] by simp_all
    with a have "maxJitter_of interval < 2 ^ 61" by simp
    from jitteredInterval_delay [OF _ b(1) this, of v] a
    obtain r where r: "0 \<le> r" "r \<le> 2 * maxJitter_of interval"
      and j: "jitteredInterval v interval =
                 Some (if wrap64 (interval + (r - maxJitter_of interval)) < Millisecond
                       then Millisecond
                       else wrap64 (interval + (r - maxJitter_of interval)))"
      by blast
    from a b r have "wrap64 (interval + (r - maxJitter_of interval))
                     = interval + (r - maxJitter_of interval)"
      by (intro wrap64_id) simp_all
    with j a b r show ?thesis
      by (simp add: Millisecond_def)
  qed
  show ?thesis
  proof (intro conjI impI)
    show "interval \<le> 0 \<Longrightarrow> jitteredInterval v interval = Some Millisecond"
      by (simp add: jitteredInterval_def)
  next
    assume "0 < interval \<and> interval < 3 * 2 ^ 51"
    then show "\<exists>delay. jitteredInterval v interval = Some delay
                    \<and> Millisecond \<le> delay
                    \<and> 4 * interval \<le> 5 * delay
                    \<and> 5 * delay \<le> max (5 * Millisecond) (6 * interval)"
      by (rule main)
  next
    assume a: "5 * Millisecond \<le> 6 * interval \<and> interval < 3 * 2 ^ 51"
    then have "0 < interval \<and> interval < 3 * 2 ^ 51"
      by (simp add: Millisecond_def)
    from main [OF this] a
    show "\<exists>delay. jitteredInterval v interval = Some delay
                    \<and> Millisecond \<le> delay
                    \<and> 4 * interval \<le> 5 * delay
                    \<and> 5 * delay \<le> 6 * interval"
      by (auto simp: max_def split: if_splits)
  next
    assume a: "interval < 2 ^ 63"
    show "\<exists>delay. jitteredInterval v interval = Some delay \<and> Millisecond \<le> delay"
    proof (cases "interval \<le> 0")
      case True
      then show ?thesis by (simp add: jitteredInterval_def)
    next
      case False
      then have p: "0 < interval" by simp
      from maxJitter_of_range [OF p a] jitteredInterval_delay [OF p, of v]
      show ?thesis by auto
    qed
  qed
qed

theorem jitter_bounds_witness:
  "(\<exists>delay. jitteredInterval 12345 30000000000 = Some delay
           \<and> Millisecond \<le> delay
           \<and> 4 * 30000000000 \<le> 5 * delay
           \<and> 5 * delay \<le> 6 * 30000000000)
   \<and> (\<exists>delay. jitteredInterval 12345 6755399441055743 = Some delay
           \<and> Millisecond \<le> delay
           \<and> 4 * 6755399441055743 \<le> 5 * delay
           \<and> 5 * delay \<le> 6 * 6755399441055743)
   \<and> jitteredInterval 12345 0 = Some Millisecond"
proof -
  have "\<exists>delay. jitteredInterval 12345 30000000000 = Some delay
           \<and> Millisecond \<le> delay
           \<and> 4 * 30000000000 \<le> 5 * delay
           \<and> 5 * delay \<le> 6 * 30000000000"
    using jitter_bounds [of 30000000000 12345] by (simp add: Millisecond_def)
  moreover have "\<exists>delay. jitteredInterval 12345 6755399441055743 = Some delay
           \<and> Millisecond \<le> delay
           \<and> 4 * 6755399441055743 \<le> 5 * delay
           \<and> 5 * delay \<le> 6 * 6755399441055743"
    using jitter_bounds [of 6755399441055743 12345] by (simp add: Millisecond_def)
  moreover have "jitteredInterval 12345 0 = Some Millisecond"
    using jitter_bounds [of 0 12345] by simp
  ultimately show ?thesis by blast
qed

text \<open>
  Two intervals outside the range: at 0.5 ms the delay is the floor of 1 ms, above
  \<open>1.2 I = 0.6 ms\<close>; at \<open>3 * 2^51 = 6755399441055744\<close> ns the product
  \<open>float64(I) * 0.2\<close> is rounded up to 1351079888211149, above \<open>0.2 I\<close>, and the
  largest draw gives a delay above \<open>1.2 I\<close>.
\<close>

theorem jitter_bounds_counterexample:
  "jitteredInterval 0 500000 = Some 1000000
   \<and> \<not> 5 * (1000000::int) \<le> 6 * 500000
   \<and> (3 * 2 ^ 51 :: int) = 6755399441055744
   \<and> maxJitter_of 6755399441055744 = 1351079888211149
   \<and> jitteredInterval 2702159776422298 6755399441055744 = Some 8106479329266893
   \<and> \<not> 5 * (8106479329266893::int) \<le> 6 * 6755399441055744"
proof -
  have m1: "maxJitter_of 500000 = 100000"
    by code_simp
  have m2: "maxJitter_of 6755399441055744 = 1351079888211149"
    by code_simp
  show ?thesis
    by (simp add: jitteredInterval_def Int63n_def m1 m2 wrap64_def Millisecond_def)
qed

end
